theory Spec2Isabelle
  imports Complex_Main
begin

section \<open>AutoProf isophote fitting: the numerical core of Isophote\_Fit.py\<close>

text \<open>
  The development embeds the functions of \<^verbatim>\<open>autoprofutils/Isophote_Fit.py\<close>.
  Python floats are idealised as real numbers; numpy arrays are lists; an exception is a value
  of the type \<open>py_error\<close>. The helpers the file imports from
  \<^verbatim>\<open>autoprofutils.SharedFunctions\<close> (the sampler \<^verbatim>\<open>_iso_extract\<close>, the
  ellipticity transforms \<^verbatim>\<open>_x_to_eps\<close> and \<^verbatim>\<open>_inv_x_to_eps\<close>, and
  \<^verbatim>\<open>Angle_TwoAngles\<close>), the scikit-learn regression and the random source of numpy are
  parameters of the definitions that call them.
\<close>

datatype py_error = IndexError | InitError

subsection \<open>Array primitives of numpy\<close>

text \<open>\<^verbatim>\<open>xs[a:b]\<close> for indices \<open>0 \<le> a\<close>, \<open>0 \<le> b\<close>: the slice is cut at the end of the array.\<close>

definition slice :: "nat \<Rightarrow> nat \<Rightarrow> 'a list \<Rightarrow> 'a list" where
  "slice a b xs = take (b - a) (drop a xs)"

text \<open>\<^verbatim>\<open>xs[-k:]\<close>: the last \<open>k\<close> elements, the whole array when it is shorter.\<close>

definition last_n :: "nat \<Rightarrow> 'a list \<Rightarrow> 'a list" where
  "last_n k xs = drop (length xs - k) xs"

text \<open>\<^verbatim>\<open>xs[:k] = v\<close> on a numpy array: the scalar is broadcast over the prefix.\<close>

definition fill_prefix :: "nat \<Rightarrow> 'a \<Rightarrow> 'a list \<Rightarrow> 'a list" where
  "fill_prefix k v xs = replicate (min k (length xs)) v @ drop k xs"

subsection \<open>Statistics and the discrete Fourier transform\<close>

text \<open>
  \<^verbatim>\<open>np.median\<close>, \<^verbatim>\<open>np.mean\<close> and \<^verbatim>\<open>np.quantile\<close> (linear interpolation between the
  two nearest order statistics, numpy's default) on a non-empty array, \<^verbatim>\<open>np.clip\<close> with an
  upper bound only, and the coefficient \<open>k\<close> of \<^verbatim>\<open>scipy.fftpack.fft\<close>, which is
  \<open>\<Sum>j<n. x\<^sub>j exp(-2\<pi>i jk/n)\<close>. Reading \<^verbatim>\<open>coefs[2]\<close> needs at least three samples.
\<close>

definition np_median :: "real list \<Rightarrow> real" where
  "np_median xs =
     (let s = sort xs; n = length xs
      in if odd n then s ! (n div 2) else (s ! (n div 2 - 1) + s ! (n div 2)) / 2)"

definition np_mean :: "real list \<Rightarrow> real" where
  "np_mean xs = sum_list xs / real (length xs)"

definition np_quantile :: "real list \<Rightarrow> real \<Rightarrow> real" where
  "np_quantile xs q =
     (let s = sort xs; pos = q * real (length xs - 1); lo = nat \<lfloor>pos\<rfloor>;
          hi = min (lo + 1) (length xs - 1)
      in s ! lo + (pos - real lo) * (s ! hi - s ! lo))"

definition np_clip_max :: "real \<Rightarrow> real list \<Rightarrow> real list" where
  "np_clip_max a_max xs = map (\<lambda>x. min x a_max) xs"

definition fft_coef :: "real list \<Rightarrow> nat \<Rightarrow> complex" where
  "fft_coef xs k =
     (\<Sum>j\<leftarrow>[0..<length xs].
        complex_of_real (xs ! j) * cis (- 2 * pi * real j * real k / real (length xs)))"

text \<open>Python's \<^verbatim>\<open>x % m\<close> on floats for a positive modulus: the result lies in \<open>[0, m)\<close>.\<close>

definition py_fmod :: "real \<Rightarrow> real \<Rightarrow> real" where
  "py_fmod x m = x - m * of_int \<lfloor>x / m\<rfloor>"

text \<open>
  \<^verbatim>\<open>np.argmin\<close>: the index of the first occurrence of the minimum. The scan keeps the best
  value seen and replaces it only by a strictly smaller one. (On an empty list numpy raises; the
  fitter calls it on six losses.)
\<close>

fun argmin_from :: "'a::linorder \<Rightarrow> nat \<Rightarrow> nat \<Rightarrow> 'a list \<Rightarrow> nat" where
  "argmin_from best bi k [] = bi"
| "argmin_from best bi k (x # xs) =
     (if x < best then argmin_from x k (Suc k) xs else argmin_from best bi (Suc k) xs)"

definition np_argmin :: "'a::linorder list \<Rightarrow> nat" where
  "np_argmin xs = (case xs of [] \<Rightarrow> 0 | x # rest \<Rightarrow> argmin_from x 0 1 rest)"

subsection \<open>Inputs, options and the imported helpers\<close>

type_synonym image = "real list list"

type_synonym pixel_mask = "bool list list"

text \<open>The entries of the \<^verbatim>\<open>results\<close> dictionary that the fitters read.\<close>

record results =
  background :: real
  mask :: "pixel_mask option"
  psf_fwhm :: real
  init_ellip :: real
  init_pa :: real
  center :: "real \<times> real"
  background_noise :: real

text \<open>The optional entries of the \<^verbatim>\<open>options\<close> dictionary; \<open>None\<close> is an absent key.\<close>

record options =
  ap_scale :: "real option"
  ap_fit_limit :: "real option"
  ap_regularize_scale :: "real option"

text \<open>
  The functions that are called but not defined in the source file. The sampler
  \<^verbatim>\<open>_iso_extract(dat, R, e, pa, C, mask=..., interp_mask=...)\<close> returns the flux samples of one
  ellipse (the last argument is \<open>None\<close> where the call does not pass \<^verbatim>\<open>interp_mask\<close>);
  \<open>huber_predict deg eps xs ys\<close> stands for fitting the scikit-learn pipeline
  \<^verbatim>\<open>PolynomialFeatures(deg), HuberRegressor(epsilon=eps)\<close> to \<open>(xs, ys)\<close> and predicting at
  \<open>xs\<close>; \<open>random_normal loc scale\<close> and \<open>random_shuffle\<close> are \<^verbatim>\<open>np.random.normal\<close> and
  \<^verbatim>\<open>np.random.shuffle\<close> with the state \<open>'g\<close> of the random source passed explicitly.
\<close>

record ('s, 'g) shared =
  iso_extract :: "image \<Rightarrow> real \<Rightarrow> real \<Rightarrow> real \<Rightarrow> real \<times> real \<Rightarrow> pixel_mask option
                    \<Rightarrow> bool option \<Rightarrow> 's list"
  x_to_eps :: "real \<Rightarrow> real"
  inv_x_to_eps :: "real \<Rightarrow> real"
  Angle_TwoAngles :: "real \<Rightarrow> real \<Rightarrow> real"
  huber_predict :: "nat \<Rightarrow> real \<Rightarrow> real list \<Rightarrow> real list \<Rightarrow> real list"
  random_normal :: "real \<Rightarrow> real \<Rightarrow> 'g \<Rightarrow> real \<times> 'g"
  random_shuffle :: "nat list \<Rightarrow> 'g \<Rightarrow> nat list \<times> 'g"

text \<open>\<^verbatim>\<open>IMG - results['background']\<close> and \<^verbatim>\<open>max(IMG.shape)\<close> for a two-dimensional array.\<close>

definition img_sub :: "image \<Rightarrow> real \<Rightarrow> image" where
  "img_sub IMG b = map (map (\<lambda>v. v - b)) IMG"

definition max_shape :: "image \<Rightarrow> nat" where
  "max_shape IMG = max (length IMG) (case IMG of [] \<Rightarrow> 0 | row # _ \<Rightarrow> length row)"

text \<open>
  \<^verbatim>\<open>mask = results['mask'] if 'mask' in results else None\<close> followed by
  \<^verbatim>\<open>if not np.any(mask): mask = None\<close>.
\<close>

definition use_mask :: "pixel_mask option \<Rightarrow> pixel_mask option" where
  "use_mask m = (case m of None \<Rightarrow> None
                 | Some rows \<Rightarrow> if list_ex (list_ex id) rows then Some rows else None)"

subsection \<open>The profile smoothers (lines 54 to 68)\<close>

definition ellip_smooth :: "('s, 'g) shared \<Rightarrow> real list \<Rightarrow> real list \<Rightarrow> nat \<Rightarrow> real list" where
  "ellip_smooth sh R E deg =
     map (x_to_eps sh) (huber_predict sh deg 2 (map (log 10) R) (map (inv_x_to_eps sh) E))"

text \<open>
  The recombination of the two clipped predictions at one radius:
  \<^verbatim>\<open>((np.arctan(s/c) + (np.pi*(c < 0))) % (2*np.pi))/2\<close>.
\<close>

definition pa_recombine :: "real \<Rightarrow> real \<Rightarrow> real" where
  "pa_recombine s c = py_fmod (arctan (s / c) + pi * (if c < 0 then 1 else 0)) (2 * pi) / 2"

definition np_clip :: "real \<Rightarrow> real \<Rightarrow> real list \<Rightarrow> real list" where
  "np_clip a_min a_max xs = map (\<lambda>x. min (max x a_min) a_max) xs"

text \<open>\<^verbatim>\<open>HuberRegressor()\<close> has the default \<^verbatim>\<open>epsilon = 1.35\<close>.\<close>

definition pa_smooth :: "('s, 'g) shared \<Rightarrow> real list \<Rightarrow> real list \<Rightarrow> nat \<Rightarrow> real list" where
  "pa_smooth sh R PA deg =
     (let logR = map (log 10) R;
          pred_pa_s = np_clip (- 1) 1 (huber_predict sh deg 1.35 logR (map (\<lambda>p. sin (2 * p)) PA));
          pred_pa_c = np_clip (- 1) 1 (huber_predict sh deg 1.35 logR (map (\<lambda>p. cos (2 * p)) PA))
      in map2 pa_recombine pred_pa_s pred_pa_c)"

subsection \<open>The Fourier losses (lines 71 to 90 and 274 to 294)\<close>

text \<open>
  The regularisation term of both losses for the radius index \<open>i\<close>; \<open>bw\<close> is the constant
  that the source writes as \<^verbatim>\<open>0.2\<close> in the robust loss and as \<^verbatim>\<open>0.3\<close> in the mean loss,
  \<open>ang\<close> is \<^verbatim>\<open>Angle_TwoAngles\<close>. The outer neighbour is tested with \<^verbatim>\<open>i < len(R)-1\<close>
  on Python integers, the inner one with \<^verbatim>\<open>i > 0\<close>.
\<close>

definition reg_loss ::
  "(real \<Rightarrow> real \<Rightarrow> real) \<Rightarrow> real \<Rightarrow> real list \<Rightarrow> real list \<Rightarrow> real list \<Rightarrow> nat \<Rightarrow> real" where
  "reg_loss ang bw R E PA i =
     (let r0 = 0;
          r1 = (if int i < int (length R) - 1
                then r0 + \<bar>(E ! i - E ! (i + 1)) / (1 - E ! (i + 1))\<bar>
                        + \<bar>ang (2 * PA ! i) (2 * PA ! (i + 1)) / (2 * bw)\<bar>
                else r0)
      in if i > 0
         then r1 + \<bar>(E ! i - E ! (i - 1)) / (1 - E ! (i - 1))\<bar>
                 + \<bar>ang (2 * PA ! i) (2 * PA ! (i - 1)) / (2 * bw)\<bar>
         else r1)"

definition FFT_Robust_loss ::
  "(real, 'g) shared \<Rightarrow> image \<Rightarrow> real list \<Rightarrow> real list \<Rightarrow> real list \<Rightarrow> nat \<Rightarrow> real \<times> real
     \<Rightarrow> real \<Rightarrow> pixel_mask option \<Rightarrow> real \<Rightarrow> real" where
  "FFT_Robust_loss sh dat R E PA i C noise msk reg_scale =
     (let isovals = iso_extract sh dat (R ! i) (E ! i) (PA ! i) C msk
                      (Some (if msk = None then False else True));
          coefs2 = (if msk = None
                    then fft_coef (np_clip_max (np_quantile isovals 0.85) isovals) 2
                    else fft_coef (np_clip_max (np_quantile isovals 0.9) isovals) 2);
          f2_loss = cmod coefs2 / (real (length isovals) * (max 0 (np_median isovals) + noise))
      in f2_loss * (1 + reg_loss (Angle_TwoAngles sh) 0.2 R E PA i * reg_scale))"

text \<open>
  A sample of the mean variant is a float that may be infinite or not a number, since
  \<^verbatim>\<open>_FFT_mean_loss\<close> tests \<^verbatim>\<open>np.isfinite\<close>; its loss is a real number or \<^verbatim>\<open>np.inf\<close>.
\<close>

datatype fval = Fin real | PInf | NInf | NaN

fun isfinite :: "fval \<Rightarrow> bool" where
  "isfinite (Fin x) = True"
| "isfinite v = False"

fun fin_val :: "fval \<Rightarrow> real" where
  "fin_val (Fin x) = x"
| "fin_val v = 0"

datatype loss = Loss real | InfLoss

instantiation loss :: linorder
begin

fun less_eq_loss :: "loss \<Rightarrow> loss \<Rightarrow> bool" where
  "less_eq_loss (Loss a) (Loss b) = (a \<le> b)"
| "less_eq_loss (Loss a) InfLoss = True"
| "less_eq_loss InfLoss (Loss b) = False"
| "less_eq_loss InfLoss InfLoss = True"

definition less_loss :: "loss \<Rightarrow> loss \<Rightarrow> bool" where
  "less_loss a b = (a \<le> b \<and> \<not> b \<le> (a :: loss))"

instance
proof
  fix x y z :: loss
  show "(x < y) = (x \<le> y \<and> \<not> y \<le> x)" by (simp add: less_loss_def)
  show "x \<le> x" by (cases x) auto
  show "x \<le> y \<Longrightarrow> y \<le> z \<Longrightarrow> x \<le> z" by (cases x; cases y; cases z) auto
  show "x \<le> y \<Longrightarrow> y \<le> x \<Longrightarrow> x = y" by (cases x; cases y) auto
  show "x \<le> y \<or> y \<le> x" by (cases x; cases y) auto
qed

end

definition FFT_mean_loss ::
  "(fval, 'g) shared \<Rightarrow> image \<Rightarrow> real list \<Rightarrow> real list \<Rightarrow> real list \<Rightarrow> nat \<Rightarrow> real \<times> real
     \<Rightarrow> real \<Rightarrow> pixel_mask option \<Rightarrow> real \<Rightarrow> loss" where
  "FFT_mean_loss sh dat R E PA i C noise msk reg_scale =
     (let isovals = iso_extract sh dat (R ! i) (E ! i) (PA ! i) C msk
                      (Some (if msk = None then False else True))
      in if \<not> list_all isfinite isovals then InfLoss
         else
           let vals = map fin_val isovals;
               coefs2 = fft_coef vals 2;
               f2_loss = cmod coefs2 / (real (length vals) * (max 0 (np_mean vals) + noise))
           in Loss (f2_loss * (1 + reg_loss (Angle_TwoAngles sh) 0.3 R E PA i * reg_scale)))"

subsection \<open>The sampling radii (lines 112 to 126 and 316 to 330)\<close>

text \<open>
  The inner loop \<^verbatim>\<open>while sample_radii[-1] < max(IMG.shape)/2\<close>: \<open>below r\<close> is the test
  that the median (the mean, in the mean variant) of the samples at the radius \<open>r\<close> is less than
  the fit limit times the background noise, \<open>half\<close> is half the largest image dimension and
  \<open>q\<close> the growth factor \<^verbatim>\<open>1.+scale/(1.+shrink)\<close>. The loop may run forever; then the value
  is \<open>None\<close>.
\<close>

partial_function (option) grow_radii ::
  "(real \<Rightarrow> bool) \<Rightarrow> real \<Rightarrow> real \<Rightarrow> real list \<Rightarrow> real list option" where
  "grow_radii below half q sample_radii =
     (if last sample_radii < half
      then if below (last sample_radii) then Some sample_radii
           else grow_radii below half q (sample_radii @ [last sample_radii * q])
      else Some sample_radii)"

text \<open>
  The outer loop \<^verbatim>\<open>while shrink < 5\<close> with the test \<^verbatim>\<open>len(sample_radii) < 15\<close>, and the
  exception raised after it when \<^verbatim>\<open>shrink >= 5\<close>; \<open>r0\<close> is the first radius
  \<^verbatim>\<open>3*results['psf fwhm']/2\<close>.
\<close>

function determine_radii ::
  "(real \<Rightarrow> bool) \<Rightarrow> real \<Rightarrow> real \<Rightarrow> real \<Rightarrow> nat \<Rightarrow> (py_error + real list) option" where
  "determine_radii below half r0 scale shrink =
     (if shrink < 5
      then (case grow_radii below half (1 + scale / (1 + real shrink)) [r0] of
              None \<Rightarrow> None
            | Some sample_radii \<Rightarrow>
                if length sample_radii < 15
                then determine_radii below half r0 scale (shrink + 1)
                else Some (Inr sample_radii))
      else Some (Inl InitError))"
  by pat_completeness auto
termination
  by (relation "measure (\<lambda>(below, half, r0, scale, shrink). 5 - shrink)") auto

declare determine_radii.simps [simp del]

text \<open>
  The flux tests of the two variants, with the default fit limits 2 and 1. The median and the
  mean of an empty array are NaN in numpy, and the comparison is then false.
\<close>

definition below_limit_median ::
  "(real, 'g) shared \<Rightarrow> image \<Rightarrow> results \<Rightarrow> options \<Rightarrow> pixel_mask option \<Rightarrow> real \<Rightarrow> bool" where
  "below_limit_median sh dat res opts msk r =
     (let isovals = iso_extract sh dat r (init_ellip res) (init_pa res) (center res) msk None
      in isovals \<noteq> [] \<and>
         np_median isovals
           < (case ap_fit_limit opts of Some l \<Rightarrow> l | None \<Rightarrow> 2) * background_noise res)"

text \<open>
  \<^verbatim>\<open>np.mean\<close> of samples that may be non-finite, and the comparison of the result with a
  finite threshold: a sum that holds a NaN, or infinities of both signs, is NaN, and a
  comparison with NaN is false.
\<close>

definition np_mean_f :: "fval list \<Rightarrow> fval" where
  "np_mean_f xs =
     (if xs = [] then NaN
      else if list_all isfinite xs then Fin (np_mean (map fin_val xs))
      else if NaN \<in> set xs \<or> (PInf \<in> set xs \<and> NInf \<in> set xs) then NaN
      else if PInf \<in> set xs then PInf else NInf)"

fun fval_less_real :: "fval \<Rightarrow> real \<Rightarrow> bool" where
  "fval_less_real (Fin x) t = (x < t)"
| "fval_less_real NInf t = True"
| "fval_less_real PInf t = False"
| "fval_less_real NaN t = False"

definition below_limit_mean ::
  "(fval, 'g) shared \<Rightarrow> image \<Rightarrow> results \<Rightarrow> options \<Rightarrow> pixel_mask option \<Rightarrow> real \<Rightarrow> bool" where
  "below_limit_mean sh dat res opts msk r =
     fval_less_real
       (np_mean_f (iso_extract sh dat r (init_ellip res) (init_pa res) (center res) msk None))
       ((case ap_fit_limit opts of Some l \<Rightarrow> l | None \<Rightarrow> 1) * background_noise res)"

subsection \<open>The fitting loop (lines 133 to 169 and 337 to 373)\<close>

text \<open>
  One perturbation of the candidate pool for the radius index \<open>i\<close> in the outer iteration
  \<open>count\<close>: copies of both arrays, the ellipticity at \<open>i\<close> moved in the transformed space
  when \<^verbatim>\<open>count % 3 in [0,1]\<close>, the position angle at \<open>i\<close> moved and wrapped modulo \<open>\<pi>\<close> when
  \<^verbatim>\<open>count % 3 in [1,2]\<close>. The scales are \<^verbatim>\<open>perturb_scale = [0.03, 0.06]\<close>.
\<close>

definition perturb ::
  "('s, 'g) shared \<Rightarrow> nat \<Rightarrow> nat \<Rightarrow> real list \<Rightarrow> real list \<Rightarrow> 'g \<Rightarrow> (real list \<times> real list) \<times> 'g" where
  "perturb sh count i ellip pa g =
     (let (e', g1) =
            (if count mod 3 \<in> {0, 1}
             then (let (z, g') = random_normal sh 0 0.03 g
                   in (ellip[i := x_to_eps sh (inv_x_to_eps sh (ellip ! i) + z)], g'))
             else (ellip, g));
          (p', g2) =
            (if count mod 3 \<in> {1, 2}
             then (let (z, g') = random_normal sh 0 0.06 g1
                   in (pa[i := py_fmod (pa ! i + z) pi], g'))
             else (pa, g1))
      in ((e', p'), g2))"

text \<open>
  The list \<^verbatim>\<open>perturbations\<close>: the unchanged arrays first, then \<^verbatim>\<open>N_perturb = 5\<close>
  perturbations, each with its loss. \<open>loss E PA i reg_scale\<close> is the loss of the variant with
  the image, the radii, the centre, the noise and the mask already supplied; the regularisation
  scale is \<^verbatim>\<open>regularize_scale if count > 4 else 0\<close>.
\<close>

type_synonym 'l candidate = "real list \<times> real list \<times> 'l"

definition add_perturbation ::
  "('s, 'g) shared \<Rightarrow> (real list \<Rightarrow> real list \<Rightarrow> nat \<Rightarrow> real \<Rightarrow> 'l) \<Rightarrow> real \<Rightarrow> nat \<Rightarrow> nat
     \<Rightarrow> real list \<Rightarrow> real list \<Rightarrow> nat \<Rightarrow> 'l candidate list \<times> 'g \<Rightarrow> 'l candidate list \<times> 'g" where
  "add_perturbation sh loss regularize_scale count i ellip pa n acc =
     (let ((e', p'), g') = perturb sh count i ellip pa (snd acc)
      in (fst acc @ [(e', p', loss e' p' i (if count > 4 then regularize_scale else 0))], g'))"

definition candidates ::
  "('s, 'g) shared \<Rightarrow> (real list \<Rightarrow> real list \<Rightarrow> nat \<Rightarrow> real \<Rightarrow> 'l) \<Rightarrow> real \<Rightarrow> nat \<Rightarrow> nat
     \<Rightarrow> real list \<Rightarrow> real list \<Rightarrow> 'g \<Rightarrow> 'l candidate list \<times> 'g" where
  "candidates sh loss regularize_scale count i ellip pa g =
     fold (add_perturbation sh loss regularize_scale count i ellip pa) [0..<5]
       ([(ellip, pa, loss ellip pa i (if count > 4 then regularize_scale else 0))], g)"

text \<open>
  The state of the random source after \<open>n\<close> perturbations of one pool, and the \<open>n\<close>-th
  perturbation with its loss: the names under which the properties speak of the pool.
\<close>

primrec rng_after ::
  "('s, 'g) shared \<Rightarrow> nat \<Rightarrow> nat \<Rightarrow> real list \<Rightarrow> real list \<Rightarrow> 'g \<Rightarrow> nat \<Rightarrow> 'g" where
  "rng_after sh count i ellip pa g 0 = g"
| "rng_after sh count i ellip pa g (Suc n) =
     snd (perturb sh count i ellip pa (rng_after sh count i ellip pa g n))"

definition nth_perturbation ::
  "('s, 'g) shared \<Rightarrow> (real list \<Rightarrow> real list \<Rightarrow> nat \<Rightarrow> real \<Rightarrow> 'l) \<Rightarrow> real \<Rightarrow> nat \<Rightarrow> nat
     \<Rightarrow> real list \<Rightarrow> real list \<Rightarrow> 'g \<Rightarrow> nat \<Rightarrow> 'l candidate" where
  "nth_perturbation sh loss regularize_scale count i ellip pa g n =
     (let ep = fst (perturb sh count i ellip pa (rng_after sh count i ellip pa g n))
      in (fst ep, snd ep, loss (fst ep) (snd ep) i (if count > 4 then regularize_scale else 0)))"

text \<open>
  The state of the loop besides the iteration counter: the two parameter arrays, the counter
  \<^verbatim>\<open>count_nochange\<close>, the index array \<^verbatim>\<open>I\<close>, which is shuffled in place, and the random
  source.
\<close>

record 'g fit_state =
  ellip_of :: "real list"
  pa_of :: "real list"
  count_nochange :: nat
  index_order :: "nat list"
  rng :: 'g

text \<open>The body of \<^verbatim>\<open>for i in I\<close>: the pool, \<^verbatim>\<open>np.argmin\<close> over its losses, and the update.\<close>

definition update_index ::
  "('s, 'g) shared \<Rightarrow> (real list \<Rightarrow> real list \<Rightarrow> nat \<Rightarrow> real \<Rightarrow> 'l::linorder) \<Rightarrow> real \<Rightarrow> nat \<Rightarrow> nat
     \<Rightarrow> 'g fit_state \<Rightarrow> 'g fit_state" where
  "update_index sh loss regularize_scale count i st =
     (let (perturbations, g') =
            candidates sh loss regularize_scale count i (ellip_of st) (pa_of st) (rng st);
          best = np_argmin (map (\<lambda>p. snd (snd p)) perturbations)
      in if best > 0
         then st\<lparr>ellip_of := fst (perturbations ! best),
                 pa_of := fst (snd (perturbations ! best)),
                 count_nochange := 0, rng := g'\<rparr>
         else st\<lparr>count_nochange := count_nochange st + 1, rng := g'\<rparr>)"

text \<open>
  The loop \<^verbatim>\<open>while count < 300 and count_nochange < (3*len(sample_radii))\<close>; \<open>n\<close> is the
  number of sample radii. The result is the final counter and state.
\<close>

function fit_loop ::
  "('s, 'g) shared \<Rightarrow> (real list \<Rightarrow> real list \<Rightarrow> nat \<Rightarrow> real \<Rightarrow> 'l::linorder) \<Rightarrow> real \<Rightarrow> nat \<Rightarrow> nat
     \<Rightarrow> 'g fit_state \<Rightarrow> nat \<times> 'g fit_state" where
  "fit_loop sh loss regularize_scale n count st =
     (if count < 300 \<and> count_nochange st < 3 * n
      then
        let count' = count + 1;
            (I', g') = random_shuffle sh (index_order st) (rng st);
            st' = st\<lparr>index_order := I', rng := g'\<rparr>
        in fit_loop sh loss regularize_scale n count'
             (fold (update_index sh loss regularize_scale count') I' st')
      else (count, st))"
  by pat_completeness auto
termination
  by (relation "measure (\<lambda>(sh, loss, regularize_scale, n, count, st). 300 - count)") auto

declare fit_loop.simps [simp del]

subsection \<open>Collapsed centre and clamping (lines 174 to 183 and 378 to 387)\<close>

text \<open>
  One pass of \<^verbatim>\<open>for i in range(5)\<close>. Reading \<^verbatim>\<open>ellip[i+1]\<close> for \<open>i \<le> 4\<close> needs six
  entries; with fewer the loop raises IndexError (both arrays have the length of the radius
  list).
\<close>

definition collapse_step :: "(real \<Rightarrow> real) \<Rightarrow> nat \<Rightarrow> real list \<times> real list \<Rightarrow> real list \<times> real list" where
  "collapse_step tr i ep =
     (let ellip = fst ep; pa = snd ep
      in if tr (ellip ! i) - tr (ellip ! (i + 1)) > 0.5
         then (fill_prefix (i + 1) (ellip ! (i + 1)) ellip, fill_prefix (i + 1) (pa ! (i + 1)) pa)
         else (ellip, pa))"

definition detect_collapsed_center ::
  "(real \<Rightarrow> real) \<Rightarrow> real list \<Rightarrow> real list \<Rightarrow> py_error + real list \<times> real list" where
  "detect_collapsed_center tr ellip pa =
     (if length ellip < 6 \<or> length pa < 6 then Inl IndexError
      else Inr (fold (collapse_step tr) [0..<5] (ellip, pa)))"

text \<open>\<^verbatim>\<open>ellip[:3] = min(ellip[:3])\<close>; the array is not empty here.\<close>

definition clamp_first3 :: "real list \<Rightarrow> real list" where
  "clamp_first3 ellip = fill_prefix 3 (Min (set (take 3 ellip))) ellip"

subsection \<open>Error estimation (lines 216 to 224 and 420 to 428)\<close>

text \<open>
  \<^verbatim>\<open>np.sqrt(np.sum((a - s)**2)/4)\<close> for two windows \<open>a\<close> and \<open>s\<close> of the raw and of the
  smoothed profile. The divisor is the constant 4 of the source, whatever the window's length.
\<close>

definition window_rms :: "real list \<Rightarrow> real list \<Rightarrow> real" where
  "window_rms a s = sqrt ((\<Sum>d\<leftarrow>map2 (-) a s. d\<^sup>2) / 4)"

text \<open>
  One error array: \<^verbatim>\<open>err = np.zeros(len(raw))\<close>, \<^verbatim>\<open>err[:2] = rms(raw[:4], smooth[:4])\<close>,
  \<^verbatim>\<open>err[-1] = rms(raw[-4:], smooth[-4:])\<close>, and the loop over \<^verbatim>\<open>range(2, len(raw)-1)\<close>
  with the window \<^verbatim>\<open>[i-2:i+2]\<close>. The assignment to \<^verbatim>\<open>err[-1]\<close> raises IndexError on an
  empty array.
\<close>

definition err_loop_body :: "real list \<Rightarrow> real list \<Rightarrow> nat \<Rightarrow> real list \<Rightarrow> real list" where
  "err_loop_body raw smooth i err =
     err[i := window_rms (slice (i - 2) (i + 2) raw) (slice (i - 2) (i + 2) smooth)]"

definition compute_err :: "real list \<Rightarrow> real list \<Rightarrow> py_error + real list" where
  "compute_err raw smooth =
     (let n = length raw;
          err0 = replicate n 0;
          err1 = fill_prefix 2 (window_rms (take 4 raw) (take 4 smooth)) err0
      in if n = 0 then Inl IndexError
         else
           let err2 = err1[n - 1 := window_rms (last_n 4 raw) (last_n 4 smooth)]
           in Inr (fold (err_loop_body raw smooth) [2..<n - 1] err2))"

text \<open>The root mean square of the source over an index window \<open>{a..<b}\<close>, written as a sum.\<close>

definition rms_over :: "nat \<Rightarrow> nat \<Rightarrow> real list \<Rightarrow> real list \<Rightarrow> real" where
  "rms_over a b raw smooth = sqrt ((\<Sum>k = a..<b. (raw ! k - smooth ! k)\<^sup>2) / 4)"

subsection \<open>The two fitters (lines 92 to 229 and 296 to 433)\<close>

text \<open>
  The dictionary \<^verbatim>\<open>res\<close> that a fitter returns. The entry \<^verbatim>\<open>'auxfile fitlimit'\<close> is the
  text \<^verbatim>\<open>'fit limit semi-major axis: %.2f pix' % sample_radii[-1]\<close>; the record holds the
  number that the text prints.
\<close>

record fit_result =
  fit_ellip :: "real list"
  fit_pa :: "real list"
  fit_R :: "real list"
  fit_ellip_err :: "real list"
  fit_pa_err :: "real list"
  auxfile_fitlimit :: real

text \<open>
  Everything after the radii are known, for both variants: the initial arrays
  \<^verbatim>\<open>np.ones(len(sample_radii))*results['init ellip']\<close>, the fitting loop from
  \<^verbatim>\<open>count = 0\<close>, \<^verbatim>\<open>count_nochange = 0\<close> and \<^verbatim>\<open>I = np.array(range(len(sample_radii)))\<close>,
  the collapsed-centre scan, the copies \<^verbatim>\<open>smooth_ellip = copy(ellip)\<close> and
  \<^verbatim>\<open>smooth_pa = copy(pa)\<close> taken before \<^verbatim>\<open>ellip[:3] = min(ellip[:3])\<close>, the two smoothers
  applied to the copies, the errors and the result. \<open>loss R E PA i reg_scale\<close> is the loss of
  the variant. The plotting branch (\<^verbatim>\<open>ap_doplot\<close>) writes image files only and is left out.
\<close>

definition fit_profile ::
  "('s, 'g) shared \<Rightarrow> (real list \<Rightarrow> real list \<Rightarrow> real list \<Rightarrow> nat \<Rightarrow> real \<Rightarrow> 'l::linorder) \<Rightarrow> real
     \<Rightarrow> real \<Rightarrow> real \<Rightarrow> real list \<Rightarrow> 'g \<Rightarrow> py_error + fit_result" where
  "fit_profile sh loss regularize_scale e0 p0 sample_radii g =
     (let n = length sample_radii;
          fitted = snd (fit_loop sh (loss sample_radii) regularize_scale n 0
                     \<lparr>ellip_of = replicate n e0, pa_of = replicate n p0, count_nochange = 0,
                      index_order = [0..<n], rng = g\<rparr>)
      in case detect_collapsed_center (inv_x_to_eps sh) (ellip_of fitted) (pa_of fitted) of
           Inl e \<Rightarrow> Inl e
         | Inr ep \<Rightarrow>
             let smooth_ellip0 = fst ep;
                 smooth_pa0 = snd ep;
                 ellip = clamp_first3 (fst ep);
                 pa = snd ep;
                 smooth_ellip = ellip_smooth sh sample_radii smooth_ellip0 5;
                 smooth_pa = pa_smooth sh sample_radii smooth_pa0 5
             in case compute_err ellip smooth_ellip of
                  Inl e \<Rightarrow> Inl e
                | Inr ellip_err \<Rightarrow>
                    (case compute_err pa smooth_pa of
                       Inl e \<Rightarrow> Inl e
                     | Inr pa_err \<Rightarrow>
                         Inr \<lparr>fit_ellip = ellip, fit_pa = pa, fit_R = sample_radii,
                              fit_ellip_err = ellip_err, fit_pa_err = pa_err,
                              auxfile_fitlimit = last sample_radii\<rparr>))"

text \<open>
  The names under which the properties speak of two stages of \<open>fit_profile\<close>: the state in
  which the fitting loop ends, and the arrays after the collapsed-centre scan.
\<close>

definition fitted ::
  "('s, 'g) shared \<Rightarrow> (real list \<Rightarrow> real list \<Rightarrow> real list \<Rightarrow> nat \<Rightarrow> real \<Rightarrow> 'l::linorder) \<Rightarrow> real
     \<Rightarrow> real \<Rightarrow> real \<Rightarrow> real list \<Rightarrow> 'g \<Rightarrow> 'g fit_state" where
  "fitted sh loss regularize_scale e0 p0 sample_radii g =
     snd (fit_loop sh (loss sample_radii) regularize_scale (length sample_radii) 0
            \<lparr>ellip_of = replicate (length sample_radii) e0,
             pa_of = replicate (length sample_radii) p0, count_nochange = 0,
             index_order = [0..<length sample_radii], rng = g\<rparr>)"

definition flattened ::
  "('s, 'g) shared \<Rightarrow> (real list \<Rightarrow> real list \<Rightarrow> real list \<Rightarrow> nat \<Rightarrow> real \<Rightarrow> 'l::linorder) \<Rightarrow> real
     \<Rightarrow> real \<Rightarrow> real \<Rightarrow> real list \<Rightarrow> 'g \<Rightarrow> real list \<times> real list" where
  "flattened sh loss regularize_scale e0 p0 sample_radii g =
     fold (collapse_step (inv_x_to_eps sh)) [0..<5]
       (ellip_of (fitted sh loss regularize_scale e0 p0 sample_radii g),
        pa_of (fitted sh loss regularize_scale e0 p0 sample_radii g))"

text \<open>The radii followed by the fit; \<open>None\<close> when the radius loop does not terminate.\<close>

definition run_fit ::
  "('s, 'g) shared \<Rightarrow> (real \<Rightarrow> bool) \<Rightarrow> (real list \<Rightarrow> real list \<Rightarrow> real list \<Rightarrow> nat \<Rightarrow> real \<Rightarrow> 'l::linorder)
     \<Rightarrow> real \<Rightarrow> real \<Rightarrow> real \<Rightarrow> real \<Rightarrow> real \<Rightarrow> real \<Rightarrow> 'g \<Rightarrow> (py_error + fit_result) option" where
  "run_fit sh below loss half r0 scale regularize_scale e0 p0 g =
     (case determine_radii below half r0 scale 0 of
        None \<Rightarrow> None
      | Some (Inl e) \<Rightarrow> Some (Inl e)
      | Some (Inr sample_radii) \<Rightarrow>
          Some (fit_profile sh loss regularize_scale e0 p0 sample_radii g))"

text \<open>
  The image arrays live in a store: a fitter receives a reference to \<^verbatim>\<open>IMG\<close>, and
  \<^verbatim>\<open>dat = IMG - results['background']\<close> allocates a new array. The parameter arrays are local
  to the fitter and stay values.
\<close>

type_synonym ref = nat

record heap =
  cells :: "ref \<Rightarrow> image"
  next_ref :: ref

definition alloc :: "image \<Rightarrow> heap \<Rightarrow> ref \<times> heap" where
  "alloc a h = (next_ref h, h\<lparr>cells := (cells h)(next_ref h := a), next_ref := Suc (next_ref h)\<rparr>)"

text \<open>The body of a fitter once \<^verbatim>\<open>dat\<close> is allocated; it reads \<^verbatim>\<open>dat\<close> and \<^verbatim>\<open>IMG.shape\<close>.\<close>

definition robust_body ::
  "(real, 'g) shared \<Rightarrow> image \<Rightarrow> nat \<Rightarrow> results \<Rightarrow> options \<Rightarrow> 'g \<Rightarrow> (py_error + fit_result) option" where
  "robust_body sh dat max_dim res opts g =
     (let scale = (case ap_scale opts of Some s \<Rightarrow> s | None \<Rightarrow> 0.2);
          msk = use_mask (mask res);
          regularize_scale = (case ap_regularize_scale opts of Some r \<Rightarrow> r | None \<Rightarrow> 1)
      in run_fit sh (below_limit_median sh dat res opts msk)
           (\<lambda>R E PA i reg_scale.
              FFT_Robust_loss sh dat R E PA i (center res) (background_noise res) msk reg_scale)
           (real max_dim / 2) (3 * psf_fwhm res / 2) scale regularize_scale
           (init_ellip res) (init_pa res) g)"

definition mean_body ::
  "(fval, 'g) shared \<Rightarrow> image \<Rightarrow> nat \<Rightarrow> results \<Rightarrow> options \<Rightarrow> 'g \<Rightarrow> (py_error + fit_result) option" where
  "mean_body sh dat max_dim res opts g =
     (let scale = (case ap_scale opts of Some s \<Rightarrow> s | None \<Rightarrow> 0.2);
          msk = use_mask (mask res);
          regularize_scale = (case ap_regularize_scale opts of Some r \<Rightarrow> r | None \<Rightarrow> 1)
      in run_fit sh (below_limit_mean sh dat res opts msk)
           (\<lambda>R E PA i reg_scale.
              FFT_mean_loss sh dat R E PA i (center res) (background_noise res) msk reg_scale)
           (real max_dim / 2) (3 * psf_fwhm res / 2) scale regularize_scale
           (init_ellip res) (init_pa res) g)"

text \<open>
  The fitters: the result pairs the reference \<^verbatim>\<open>IMG\<close> that was passed in with the
  dictionary, \<^verbatim>\<open>return IMG, res\<close>; the store after the call is returned with it.
\<close>

definition Isophote_Fit_FFT_Robust ::
  "(real, 'g) shared \<Rightarrow> heap \<Rightarrow> ref \<Rightarrow> results \<Rightarrow> options \<Rightarrow> 'g
     \<Rightarrow> ((py_error + ref \<times> fit_result) \<times> heap) option" where
  "Isophote_Fit_FFT_Robust sh h IMG res opts g =
     (let (dat, h') = alloc (img_sub (cells h IMG) (background res)) h
      in case robust_body sh (cells h' dat) (max_shape (cells h' IMG)) res opts g of
           None \<Rightarrow> None
         | Some (Inl e) \<Rightarrow> Some (Inl e, h')
         | Some (Inr r) \<Rightarrow> Some (Inr (IMG, r), h'))"

definition Isophote_Fit_FFT_mean ::
  "(fval, 'g) shared \<Rightarrow> heap \<Rightarrow> ref \<Rightarrow> results \<Rightarrow> options \<Rightarrow> 'g
     \<Rightarrow> ((py_error + ref \<times> fit_result) \<times> heap) option" where
  "Isophote_Fit_FFT_mean sh h IMG res opts g =
     (let (dat, h') = alloc (img_sub (cells h IMG) (background res)) h
      in case mean_body sh (cells h' dat) (max_shape (cells h' IMG)) res opts g of
           None \<Rightarrow> None
         | Some (Inl e) \<Rightarrow> Some (Inl e, h')
         | Some (Inr r) \<Rightarrow> Some (Inr (IMG, r), h'))"

section \<open>Properties\<close>

subsection \<open>The error estimator\<close>

lemma sum_list_map2_nth:
  "length a = length s \<Longrightarrow>
     (\<Sum>d\<leftarrow>map2 (-) a s. d\<^sup>2) = (\<Sum>k = 0..<length a. ((a ! k :: real) - s ! k)\<^sup>2)"
proof -
  assume len: "length a = length s"
  have "(\<Sum>d\<leftarrow>map2 (-) a s. d\<^sup>2) = (\<Sum>k = 0..<length (map2 (-) a s). (map2 (-) a s ! k)\<^sup>2)"
    by (simp add: sum_list_sum_nth)
  also have "\<dots> = (\<Sum>k = 0..<length a. (a ! k - s ! k)\<^sup>2)"
    using len by (intro sum.cong) auto
  finally show ?thesis .
qed

lemma window_rms_slice:
  assumes "b \<le> length raw" "length smooth = length raw" "a \<le> b"
  shows "window_rms (slice a b raw) (slice a b smooth) = rms_over a b raw smooth"
proof -
  have len: "length (slice a b raw) = b - a" "length (slice a b smooth) = b - a"
    using assms by (auto simp: slice_def)
  have "(\<Sum>d\<leftarrow>map2 (-) (slice a b raw) (slice a b smooth). d\<^sup>2)
        = (\<Sum>k = 0..<b - a. (slice a b raw ! k - slice a b smooth ! k)\<^sup>2)"
    using sum_list_map2_nth[of "slice a b raw" "slice a b smooth"] len by simp
  also have "\<dots> = (\<Sum>k = 0..<b - a. (raw ! (a + k) - smooth ! (a + k))\<^sup>2)"
    using assms by (intro sum.cong) (auto simp: slice_def)
  also have "\<dots> = (\<Sum>k = a..<b. (raw ! k - smooth ! k)\<^sup>2)"
    using assms sum.shift_bounds_nat_ivl[of "\<lambda>k. (raw ! k - smooth ! k)\<^sup>2" 0 a "b - a"]
    by (simp add: add.commute)
  finally show ?thesis
    by (simp add: window_rms_def rms_over_def)
qed

lemma length_err_fold:
  "length (fold (err_loop_body raw smooth) is err) = length err"
  by (induction "is" arbitrary: err) (auto simp: err_loop_body_def)

lemma err_fold_notin:
  "i \<notin> set is \<Longrightarrow> fold (err_loop_body raw smooth) is err ! i = err ! i"
  by (induction "is" arbitrary: err) (auto simp: err_loop_body_def)

lemma err_fold_in:
  "i \<in> set is \<Longrightarrow> i < length err \<Longrightarrow>
     fold (err_loop_body raw smooth) is err ! i
       = window_rms (slice (i - 2) (i + 2) raw) (slice (i - 2) (i + 2) smooth)"
proof (induction "is" arbitrary: err)
  case Nil
  then show ?case by simp
next
  case (Cons j js)
  show ?case
  proof (cases "i \<in> set js")
    case True
    with Cons show ?thesis by (simp add: length_err_fold err_loop_body_def)
  next
    case False
    with Cons.prems have "j = i" by simp
    have "fold (err_loop_body raw smooth) js (err_loop_body raw smooth i err) ! i
            = err_loop_body raw smooth i err ! i"
      using False by (rule err_fold_notin)
    moreover have "err_loop_body raw smooth i err ! i
            = window_rms (slice (i - 2) (i + 2) raw) (slice (i - 2) (i + 2) smooth)"
      using Cons.prems by (simp add: err_loop_body_def)
    ultimately show ?thesis
      using \<open>j = i\<close> by simp
  qed
qed

lemma compute_err_Inr:
  "raw \<noteq> [] \<Longrightarrow>
     compute_err raw smooth =
       Inr (fold (err_loop_body raw smooth) [2..<length raw - 1]
             ((fill_prefix 2 (window_rms (take 4 raw) (take 4 smooth)) (replicate (length raw) 0))
                [length raw - 1 := window_rms (last_n 4 raw) (last_n 4 smooth)]))"
  by (simp add: compute_err_def Let_def)

lemma length_fill_prefix [simp]: "length (fill_prefix k v xs) = length xs"
  by (simp add: fill_prefix_def)

lemma nth_fill_prefix:
  "i < length xs \<Longrightarrow> fill_prefix k v xs ! i = (if i < k then v else xs ! i)"
  by (auto simp: fill_prefix_def nth_append)

text \<open>
  Claim C6. For a raw and a smoothed profile of the same length \<open>n \<ge> 4\<close> the error array
  is computed without an exception, has length \<open>n\<close>, holds at the indices 0 and 1 the root
  mean square of raw minus smoothed over the indices 0 to 3, at the index \<open>n - 1\<close> the one
  over the last four indices, and at every interior index \<open>2 \<le> i \<le> n - 2\<close> the one over the
  half-open window from \<open>i - 2\<close> to \<open>i + 2\<close>; each root mean square is the square root of the
  sum of the squared deviations divided by 4. The source computes the ellipticity errors and the
  position-angle errors by the same statements, so the theorem covers both arrays.
\<close>

theorem compute_err_windows:
  assumes n4: "4 \<le> length raw" and len: "length smooth = length raw"
  shows "\<exists>err. compute_err raw smooth = Inr err \<and> length err = length raw
           \<and> err ! 0 = rms_over 0 4 raw smooth
           \<and> err ! 1 = rms_over 0 4 raw smooth
           \<and> err ! (length raw - 1) = rms_over (length raw - 4) (length raw) raw smooth
           \<and> (\<forall>i. 2 \<le> i \<and> i \<le> length raw - 2
                  \<longrightarrow> err ! i = rms_over (i - 2) (i + 2) raw smooth)"
proof -
  define n where "n = length raw"
  define v0 where "v0 = window_rms (take 4 raw) (take 4 smooth)"
  define vl where "vl = window_rms (last_n 4 raw) (last_n 4 smooth)"
  define err2 where "err2 = (fill_prefix 2 v0 (replicate n 0))[n - 1 := vl]"
  define err where "err = fold (err_loop_body raw smooth) [2..<n - 1] err2"
  have ne: "raw \<noteq> []" using n4 by auto
  have res: "compute_err raw smooth = Inr err"
    using compute_err_Inr[OF ne, of smooth] by (simp add: err_def err2_def v0_def vl_def n_def)
  have len2: "length err2 = n" by (simp add: err2_def)
  have lene: "length err = n" by (simp add: err_def length_err_fold len2)
  have v0: "v0 = rms_over 0 4 raw smooth"
    using window_rms_slice[of 4 raw smooth 0] n4 len by (simp add: v0_def slice_def)
  have vl: "vl = rms_over (n - 4) n raw smooth"
    using window_rms_slice[of n raw smooth "n - 4"] n4 len
    by (simp add: vl_def slice_def last_n_def n_def)
  have low: "err ! i = v0" if "i < 2" for i
  proof -
    have "i \<notin> set [2..<n - 1]" using that by simp
    then have "err ! i = err2 ! i" unfolding err_def by (rule err_fold_notin)
    also have "\<dots> = v0"
      using that n4 by (simp add: err2_def n_def nth_fill_prefix)
    finally show ?thesis .
  qed
  have top: "err ! (n - 1) = vl"
  proof -
    have "n - 1 \<notin> set [2..<n - 1]" by simp
    then have "err ! (n - 1) = err2 ! (n - 1)" unfolding err_def by (rule err_fold_notin)
    also have "\<dots> = vl"
      using n4 by (simp add: err2_def n_def)
    finally show ?thesis .
  qed
  have mid: "err ! i = rms_over (i - 2) (i + 2) raw smooth" if "2 \<le> i" "i \<le> n - 2" for i
  proof -
    have "i \<in> set [2..<n - 1]" using that n4 by (auto simp: n_def)
    moreover have "i < length err2" using that n4 by (simp add: len2 n_def)
    ultimately have "err ! i
        = window_rms (slice (i - 2) (i + 2) raw) (slice (i - 2) (i + 2) smooth)"
      unfolding err_def by (rule err_fold_in)
    also have "\<dots> = rms_over (i - 2) (i + 2) raw smooth"
      using that n4 len by (intro window_rms_slice) (auto simp: n_def)
    finally show ?thesis .
  qed
  show ?thesis
    using res lene v0 vl low[of 0] low[of 1] top mid by (auto simp: n_def)
qed

text \<open>
  The theorem at a profile of length 5 whose raw and smoothed values differ by 2 at every index:
  each window of four deviations has the root mean square 2.
\<close>

theorem compute_err_windows_witness:
  "\<exists>err. compute_err [3, 3, 3, 3, 3] [1, 1, 1, 1, 1] = Inr err \<and> length err = 5
      \<and> err ! 0 = 2 \<and> err ! 1 = 2 \<and> err ! 4 = 2 \<and> err ! 2 = 2 \<and> err ! 3 = 2"
proof -
  let ?raw = "[3, 3, 3, 3, 3 :: real]" and ?sm = "[1, 1, 1, 1, 1 :: real]"
  have r0: "rms_over 0 4 ?raw ?sm = 2" and r1: "rms_over 1 5 ?raw ?sm = 2"
    by (simp_all add: rms_over_def eval_nat_numeral sum.atLeast_Suc_lessThan)
  have h: "4 \<le> length ?raw" "length ?sm = length ?raw" by simp_all
  from compute_err_windows[OF h]
  obtain err where e: "compute_err ?raw ?sm = Inr err" "length err = length ?raw"
      "err ! 0 = rms_over 0 4 ?raw ?sm"
      "err ! 1 = rms_over 0 4 ?raw ?sm"
      "err ! (length ?raw - 1) = rms_over (length ?raw - 4) (length ?raw) ?raw ?sm"
      "\<forall>i. 2 \<le> i \<and> i \<le> length ?raw - 2 \<longrightarrow> err ! i = rms_over (i - 2) (i + 2) ?raw ?sm"
    by blast
  have "err ! 2 = rms_over (2 - 2) (2 + 2) ?raw ?sm" "err ! 3 = rms_over (3 - 2) (3 + 2) ?raw ?sm"
    using e(6) by simp_all
  then have "err ! 2 = 2" "err ! 3 = 2" using r0 r1 by (simp_all add: eval_nat_numeral)
  moreover have "err ! 4 = 2" using e(5) r1 by (simp add: eval_nat_numeral)
  moreover have "length err = 5" using e(2) by simp
  ultimately show ?thesis using e(1,3,4) r0 by simp
qed

subsection \<open>The selection of the best candidate\<close>

lemma argmin_from_spec:
  fixes ys :: "'a::linorder list"
  assumes "ys = pre @ xs" "k = length pre" "bi < k" "best = ys ! bi"
    "\<forall>j<k. best \<le> ys ! j" "\<forall>j<bi. best < ys ! j"
  shows "argmin_from best bi k xs < length ys
         \<and> (\<forall>j<length ys. ys ! argmin_from best bi k xs \<le> ys ! j)
         \<and> (\<forall>j<argmin_from best bi k xs. ys ! argmin_from best bi k xs < ys ! j)"
  using assms
proof (induction xs arbitrary: pre best bi k)
  case Nil
  then show ?case by simp
next
  case (Cons x xs)
  have ysk: "ys ! k = x" using Cons.prems by (simp add: nth_append)
  have ys': "ys = (pre @ [x]) @ xs" "Suc k = length (pre @ [x])" using Cons.prems by simp_all
  show ?case
  proof (cases "x < best")
    case True
    have a: "\<forall>j<Suc k. x \<le> ys ! j"
      using Cons.prems(5) True ysk by (auto simp: less_Suc_eq intro: less_imp_le order.trans)
    have b: "\<forall>j<k. x < ys ! j"
      using Cons.prems(5) True by (auto intro: less_le_trans)
    from Cons.IH[OF ys' _ _ a, of k] ysk b True show ?thesis by simp
  next
    case False
    have a: "\<forall>j<Suc k. best \<le> ys ! j"
      using Cons.prems(5) False ysk by (auto simp: less_Suc_eq)
    from Cons.IH[OF ys' _ Cons.prems(4) a Cons.prems(6)] Cons.prems(3) False show ?thesis by simp
  qed
qed

lemma np_argmin_spec:
  fixes xs :: "'a::linorder list"
  assumes "xs \<noteq> []"
  shows "np_argmin xs < length xs"
    and "j < length xs \<Longrightarrow> xs ! np_argmin xs \<le> xs ! j"
    and "j < np_argmin xs \<Longrightarrow> xs ! np_argmin xs < xs ! j"
proof -
  obtain x rest where xs: "xs = x # rest" using assms by (cases xs) auto
  have "argmin_from x 0 1 rest < length xs
         \<and> (\<forall>j<length xs. xs ! argmin_from x 0 1 rest \<le> xs ! j)
         \<and> (\<forall>j<argmin_from x 0 1 rest. xs ! argmin_from x 0 1 rest < xs ! j)"
    by (rule argmin_from_spec[where pre = "[x]"]) (simp_all add: xs)
  then show "np_argmin xs < length xs"
    and "j < length xs \<Longrightarrow> xs ! np_argmin xs \<le> xs ! j"
    and "j < np_argmin xs \<Longrightarrow> xs ! np_argmin xs < xs ! j"
    by (simp_all add: np_argmin_def xs)
qed

subsection \<open>The candidate pool\<close>

lemma add_perturbation_eq:
  "add_perturbation sh loss rs count i ellip pa n (ps, rng_after sh count i ellip pa g m)
     = (ps @ [nth_perturbation sh loss rs count i ellip pa g m],
        rng_after sh count i ellip pa g (Suc m))"
  by (simp add: add_perturbation_def nth_perturbation_def Let_def split: prod.splits)

lemma fold_add_perturbation:
  "fold (add_perturbation sh loss rs count i ellip pa) [0..<m]
        ([p0], g)
     = (p0 # map (nth_perturbation sh loss rs count i ellip pa g) [0..<m],
        rng_after sh count i ellip pa g m)"
proof (induction m)
  case 0
  then show ?case by simp
next
  case (Suc m)
  have g0: "g = rng_after sh count i ellip pa g 0" by simp
  show ?case
    using Suc add_perturbation_eq[of sh loss rs count i ellip pa m _ g m]
    by simp
qed

lemma candidates_eq:
  "candidates sh loss rs count i ellip pa g
     = ((ellip, pa, loss ellip pa i (if count > 4 then rs else 0))
          # map (nth_perturbation sh loss rs count i ellip pa g) [0..<5],
        rng_after sh count i ellip pa g 5)"
  unfolding candidates_def by (rule fold_add_perturbation)

lemma length_perturb:
  "length (fst (fst (perturb sh count i ellip pa g))) = length ellip"
  "length (snd (fst (perturb sh count i ellip pa g))) = length pa"
  by (simp_all add: perturb_def Let_def split: prod.splits)

lemma perturb_other:
  "j \<noteq> i \<Longrightarrow> fst (fst (perturb sh count i ellip pa g)) ! j = ellip ! j"
  "j \<noteq> i \<Longrightarrow> snd (fst (perturb sh count i ellip pa g)) ! j = pa ! j"
  by (simp_all add: perturb_def Let_def split: prod.splits)

lemma perturb_cases:
  "count mod 3 = 0 \<Longrightarrow>
     fst (perturb sh count i ellip pa g)
       = (ellip[i := x_to_eps sh (inv_x_to_eps sh (ellip ! i) + fst (random_normal sh 0 0.03 g))],
          pa)"
  "count mod 3 = 1 \<Longrightarrow>
     fst (perturb sh count i ellip pa g)
       = (ellip[i := x_to_eps sh (inv_x_to_eps sh (ellip ! i) + fst (random_normal sh 0 0.03 g))],
          pa[i := py_fmod (pa ! i + fst (random_normal sh 0 0.06 (snd (random_normal sh 0 0.03 g)))) pi])"
  "count mod 3 = 2 \<Longrightarrow>
     fst (perturb sh count i ellip pa g)
       = (ellip, pa[i := py_fmod (pa ! i + fst (random_normal sh 0 0.06 g)) pi])"
  by (simp_all add: perturb_def Let_def split: prod.splits)

lemma perturb_rng:
  "count mod 3 = 0 \<Longrightarrow>
     snd (perturb sh count i ellip pa g) = snd (random_normal sh 0 0.03 g)"
  "count mod 3 = 1 \<Longrightarrow>
     snd (perturb sh count i ellip pa g)
       = snd (random_normal sh 0 0.06 (snd (random_normal sh 0 0.03 g)))"
  "count mod 3 = 2 \<Longrightarrow>
     snd (perturb sh count i ellip pa g) = snd (random_normal sh 0 0.06 g)"
  by (simp_all add: perturb_def Let_def split: prod.splits)

lemma below_limit_median_regularize:
  "below_limit_median sh dat res (opts\<lparr>ap_regularize_scale := x\<rparr>) msk
     = below_limit_median sh dat res opts msk"
  by (rule ext) (simp add: below_limit_median_def)

lemma below_limit_mean_regularize:
  "below_limit_mean sh dat res (opts\<lparr>ap_regularize_scale := x\<rparr>) msk
     = below_limit_mean sh dat res opts msk"
  by (rule ext) (simp add: below_limit_mean_def)

text \<open>
  Claim C2. For a radius index \<open>i\<close> in the outer iteration \<open>count\<close> the pool has exactly six
  candidates: the current arrays unchanged, then five perturbations. The perturbation \<open>n\<close>
  draws from the random source in the state \<open>g\<^sub>n\<close> that the perturbation before it left, the
  first one from the state \<open>g\<close> the pool was entered with, and the pool leaves the source in
  the state after the fifth. A perturbation keeps the lengths of both arrays and every entry
  but the one at \<open>i\<close>. When \<open>count mod 3 = 0\<close> it replaces the ellipticity at \<open>i\<close> by the
  transform of a draw of scale 0.03 added in the transformed space and leaves the position
  angles; when \<open>count mod 3 = 1\<close> it does that and then replaces the position angle at \<open>i\<close> by
  the angle plus a draw of scale 0.06, modulo \<open>\<pi>\<close>; when \<open>count mod 3 = 2\<close> it changes the
  position angle only. Every candidate's loss is evaluated with the regularisation scale 0
  while \<open>count \<le> 4\<close> and with the configured scale afterwards. Both fitters hand to the fit the
  option \<^verbatim>\<open>ap_regularize_scale\<close> when it is set and 1 when it is not, so a fitter without
  the option behaves as with the option set to 1.
\<close>

theorem candidate_pool:
  fixes loss :: "real list \<Rightarrow> real list \<Rightarrow> nat \<Rightarrow> real \<Rightarrow> 'l"
    and sh :: "('s, 'g) shared" and count i :: nat and ellip pa :: "real list" and g :: 'g
    and shr :: "(real, 'gr) shared" and shm :: "(fval, 'gm) shared"
  defines "rs \<equiv> \<lambda>count regularize_scale. if count \<le> 4 then 0 else (regularize_scale :: real)"
  defines "gs \<equiv> rng_after sh count i ellip pa g"
  defines "configured \<equiv> \<lambda>opts. case ap_regularize_scale opts of Some r \<Rightarrow> r | None \<Rightarrow> 1"
  shows "length (fst (candidates sh loss regularize_scale count i ellip pa g)) = 6
    \<and> fst (candidates sh loss regularize_scale count i ellip pa g) ! 0
        = (ellip, pa, loss ellip pa i (rs count regularize_scale))
    \<and> (\<forall>n<5. \<exists>e' p'.
          fst (candidates sh loss regularize_scale count i ellip pa g) ! Suc n
            = (e', p', loss e' p' i (rs count regularize_scale))
          \<and> length e' = length ellip \<and> length p' = length pa
          \<and> (\<forall>j. j \<noteq> i \<longrightarrow> e' ! j = ellip ! j \<and> p' ! j = pa ! j)
          \<and> (count mod 3 = 0 \<longrightarrow>
                e' = ellip[i := x_to_eps sh (inv_x_to_eps sh (ellip ! i)
                                  + fst (random_normal sh 0 0.03 (gs n)))]
                \<and> p' = pa
                \<and> gs (Suc n) = snd (random_normal sh 0 0.03 (gs n)))
          \<and> (count mod 3 = 1 \<longrightarrow>
                e' = ellip[i := x_to_eps sh (inv_x_to_eps sh (ellip ! i)
                                  + fst (random_normal sh 0 0.03 (gs n)))]
                \<and> p' = pa[i := py_fmod (pa ! i + fst (random_normal sh 0 0.06
                                  (snd (random_normal sh 0 0.03 (gs n))))) pi]
                \<and> gs (Suc n) = snd (random_normal sh 0 0.06
                                  (snd (random_normal sh 0 0.03 (gs n)))))
          \<and> (count mod 3 = 2 \<longrightarrow>
                e' = ellip
                \<and> p' = pa[i := py_fmod (pa ! i + fst (random_normal sh 0 0.06 (gs n))) pi]
                \<and> gs (Suc n) = snd (random_normal sh 0 0.06 (gs n))))
    \<and> gs 0 = g
    \<and> snd (candidates sh loss regularize_scale count i ellip pa g) = gs 5
    \<and> robust_body shr dat m res opts gr
        = run_fit shr (below_limit_median shr dat res opts (use_mask (mask res)))
            (\<lambda>R E PA i reg_scale. FFT_Robust_loss shr dat R E PA i (center res)
                                     (background_noise res) (use_mask (mask res)) reg_scale)
            (real m / 2) (3 * psf_fwhm res / 2)
            (case ap_scale opts of Some s \<Rightarrow> s | None \<Rightarrow> 0.2) (configured opts)
            (init_ellip res) (init_pa res) gr
    \<and> mean_body shm dat m res opts gm
        = run_fit shm (below_limit_mean shm dat res opts (use_mask (mask res)))
            (\<lambda>R E PA i reg_scale. FFT_mean_loss shm dat R E PA i (center res)
                                     (background_noise res) (use_mask (mask res)) reg_scale)
            (real m / 2) (3 * psf_fwhm res / 2)
            (case ap_scale opts of Some s \<Rightarrow> s | None \<Rightarrow> 0.2) (configured opts)
            (init_ellip res) (init_pa res) gm
    \<and> configured (opts\<lparr>ap_regularize_scale := None\<rparr>) = 1
    \<and> configured (opts\<lparr>ap_regularize_scale := Some r\<rparr>) = r
    \<and> robust_body shr dat m res (opts\<lparr>ap_regularize_scale := None\<rparr>) gr
        = robust_body shr dat m res (opts\<lparr>ap_regularize_scale := Some 1\<rparr>) gr
    \<and> mean_body shm dat m res (opts\<lparr>ap_regularize_scale := None\<rparr>) gm
        = mean_body shm dat m res (opts\<lparr>ap_regularize_scale := Some 1\<rparr>) gm"
proof -
  let ?c = "fst (candidates sh loss regularize_scale count i ellip pa g)"
  have rs: "(if count > 4 then regularize_scale else 0) = rs count regularize_scale"
    by (simp add: rs_def)
  have c: "?c = (ellip, pa, loss ellip pa i (rs count regularize_scale))
                 # map (nth_perturbation sh loss regularize_scale count i ellip pa g) [0..<5]"
    by (simp add: candidates_eq rs)
  have len: "length ?c = 6" by (simp add: c)
  have hd0: "?c ! 0 = (ellip, pa, loss ellip pa i (rs count regularize_scale))" by (simp add: c)
  have pert: "\<exists>e' p'.
          ?c ! Suc n = (e', p', loss e' p' i (rs count regularize_scale))
          \<and> length e' = length ellip \<and> length p' = length pa
          \<and> (\<forall>j. j \<noteq> i \<longrightarrow> e' ! j = ellip ! j \<and> p' ! j = pa ! j)
          \<and> (count mod 3 = 0 \<longrightarrow>
                e' = ellip[i := x_to_eps sh (inv_x_to_eps sh (ellip ! i)
                                  + fst (random_normal sh 0 0.03 (gs n)))]
                \<and> p' = pa
                \<and> gs (Suc n) = snd (random_normal sh 0 0.03 (gs n)))
          \<and> (count mod 3 = 1 \<longrightarrow>
                e' = ellip[i := x_to_eps sh (inv_x_to_eps sh (ellip ! i)
                                  + fst (random_normal sh 0 0.03 (gs n)))]
                \<and> p' = pa[i := py_fmod (pa ! i + fst (random_normal sh 0 0.06
                                  (snd (random_normal sh 0 0.03 (gs n))))) pi]
                \<and> gs (Suc n) = snd (random_normal sh 0 0.06
                                  (snd (random_normal sh 0 0.03 (gs n)))))
          \<and> (count mod 3 = 2 \<longrightarrow>
                e' = ellip
                \<and> p' = pa[i := py_fmod (pa ! i + fst (random_normal sh 0 0.06 (gs n))) pi]
                \<and> gs (Suc n) = snd (random_normal sh 0 0.06 (gs n)))"
    if n: "n < 5" for n
  proof -
    define ep where "ep = fst (perturb sh count i ellip pa (gs n))"
    have nth: "?c ! Suc n = (fst ep, snd ep, loss (fst ep) (snd ep) i (rs count regularize_scale))"
      using n by (simp add: c nth_perturbation_def Let_def ep_def gs_def rs)
    have l: "length (fst ep) = length ellip" "length (snd ep) = length pa"
      by (simp_all add: ep_def length_perturb)
    have o: "\<forall>j. j \<noteq> i \<longrightarrow> fst ep ! j = ellip ! j \<and> snd ep ! j = pa ! j"
      by (simp add: ep_def perturb_other)
    have nx: "gs (Suc n) = snd (perturb sh count i ellip pa (gs n))"
      by (simp add: gs_def)
    have c0: "count mod 3 = 0 \<longrightarrow>
                fst ep = ellip[i := x_to_eps sh (inv_x_to_eps sh (ellip ! i)
                                  + fst (random_normal sh 0 0.03 (gs n)))]
                \<and> snd ep = pa
                \<and> gs (Suc n) = snd (random_normal sh 0 0.03 (gs n))"
      by (simp add: ep_def nx perturb_cases(1) perturb_rng(1))
    have c1: "count mod 3 = 1 \<longrightarrow>
                fst ep = ellip[i := x_to_eps sh (inv_x_to_eps sh (ellip ! i)
                                  + fst (random_normal sh 0 0.03 (gs n)))]
                \<and> snd ep = pa[i := py_fmod (pa ! i + fst (random_normal sh 0 0.06
                                  (snd (random_normal sh 0 0.03 (gs n))))) pi]
                \<and> gs (Suc n) = snd (random_normal sh 0 0.06
                                  (snd (random_normal sh 0 0.03 (gs n))))"
      by (simp add: ep_def nx perturb_cases(2) perturb_rng(2))
    have c2: "count mod 3 = 2 \<longrightarrow>
                fst ep = ellip
                \<and> snd ep = pa[i := py_fmod (pa ! i + fst (random_normal sh 0 0.06 (gs n))) pi]
                \<and> gs (Suc n) = snd (random_normal sh 0 0.06 (gs n))"
      by (simp add: ep_def nx perturb_cases(3) perturb_rng(3))
    show ?thesis
      apply (rule exI[of _ "fst ep"], rule exI[of _ "snd ep"])
      apply (intro conjI)
      apply (rule nth)
      apply (rule l(1))
      apply (rule l(2))
      apply (rule o)
      apply (rule c0)
      apply (rule c1)
      apply (rule c2)
      done
  qed
  have g0: "gs 0 = g" by (simp add: gs_def)
  have g5: "snd (candidates sh loss regularize_scale count i ellip pa g) = gs 5"
    by (simp add: candidates_eq gs_def)
  have rb: "robust_body shr dat m res opts gr
        = run_fit shr (below_limit_median shr dat res opts (use_mask (mask res)))
            (\<lambda>R E PA i reg_scale. FFT_Robust_loss shr dat R E PA i (center res)
                                     (background_noise res) (use_mask (mask res)) reg_scale)
            (real m / 2) (3 * psf_fwhm res / 2)
            (case ap_scale opts of Some s \<Rightarrow> s | None \<Rightarrow> 0.2) (configured opts)
            (init_ellip res) (init_pa res) gr" for opts
    by (simp add: robust_body_def configured_def Let_def)
  have mb: "mean_body shm dat m res opts gm
        = run_fit shm (below_limit_mean shm dat res opts (use_mask (mask res)))
            (\<lambda>R E PA i reg_scale. FFT_mean_loss shm dat R E PA i (center res)
                                     (background_noise res) (use_mask (mask res)) reg_scale)
            (real m / 2) (3 * psf_fwhm res / 2)
            (case ap_scale opts of Some s \<Rightarrow> s | None \<Rightarrow> 0.2) (configured opts)
            (init_ellip res) (init_pa res) gm" for opts
    by (simp add: mean_body_def configured_def Let_def)
  have cn: "configured (opts\<lparr>ap_regularize_scale := None\<rparr>) = 1"
    by (simp add: configured_def)
  have cs: "configured (opts\<lparr>ap_regularize_scale := Some r\<rparr>) = r"
    by (simp add: configured_def)
  have dr: "robust_body shr dat m res (opts\<lparr>ap_regularize_scale := None\<rparr>) gr
        = robust_body shr dat m res (opts\<lparr>ap_regularize_scale := Some 1\<rparr>) gr"
    by (simp add: rb configured_def below_limit_median_regularize)
  have dm: "mean_body shm dat m res (opts\<lparr>ap_regularize_scale := None\<rparr>) gm
        = mean_body shm dat m res (opts\<lparr>ap_regularize_scale := Some 1\<rparr>) gm"
    by (simp add: mb configured_def below_limit_mean_regularize)
  show ?thesis
    apply (intro conjI allI impI)
    apply (rule len)
    apply (rule hd0)
    apply (erule pert)
    apply (rule g0)
    apply (rule g5)
    apply (rule rb)
    apply (rule mb)
    apply (rule cn)
    apply (rule cs)
    apply (rule dr)
    apply (rule dm)
    done
qed

text \<open>
  The theorem in the third outer iteration (\<open>count mod 3 = 0\<close>, \<open>count \<le> 4\<close>) at the index 1 of
  two radii, with a random source that counts its draws and returns the scale times the
  number of the draw, identity transforms and a loss that returns the regularisation scale it
  is given: the first perturbation moves the ellipticity at 1 from 1/2 to 53/100 and the
  second one, drawing from the state the first one left, to 56/100; both leave the position
  angles and are evaluated with scale 0.
\<close>

theorem candidate_pool_witness:
  "length (fst (candidates
      \<lparr>iso_extract = \<lambda>dat r e p c m b. ([] :: real list), x_to_eps = \<lambda>x. x,
       inv_x_to_eps = \<lambda>x. x, Angle_TwoAngles = \<lambda>a b. 0,
       huber_predict = \<lambda>deg eps xs ys. ys,
       random_normal = \<lambda>loc scale g. (real (Suc g) * scale, Suc g),
       random_shuffle = \<lambda>I g. (I, g)\<rparr>
      (\<lambda>E PA i r. r) 7 3 1 [1/2, 1/2] [1, 1] 0)) = 6
   \<and> fst (candidates
      \<lparr>iso_extract = \<lambda>dat r e p c m b. ([] :: real list), x_to_eps = \<lambda>x. x,
       inv_x_to_eps = \<lambda>x. x, Angle_TwoAngles = \<lambda>a b. 0,
       huber_predict = \<lambda>deg eps xs ys. ys,
       random_normal = \<lambda>loc scale g. (real (Suc g) * scale, Suc g),
       random_shuffle = \<lambda>I g. (I, g)\<rparr>
      (\<lambda>E PA i r. r) 7 3 1 [1/2, 1/2] [1, 1] 0) ! Suc 0 = ([1/2, 53/100], [1, 1], 0)
   \<and> fst (candidates
      \<lparr>iso_extract = \<lambda>dat r e p c m b. ([] :: real list), x_to_eps = \<lambda>x. x,
       inv_x_to_eps = \<lambda>x. x, Angle_TwoAngles = \<lambda>a b. 0,
       huber_predict = \<lambda>deg eps xs ys. ys,
       random_normal = \<lambda>loc scale g. (real (Suc g) * scale, Suc g),
       random_shuffle = \<lambda>I g. (I, g)\<rparr>
      (\<lambda>E PA i r. r) 7 3 1 [1/2, 1/2] [1, 1] 0) ! Suc (Suc 0) = ([1/2, 56/100], [1, 1], 0)"
proof -
  let ?sh = "\<lparr>iso_extract = \<lambda>dat r e p c m b. ([] :: real list), x_to_eps = \<lambda>x. x,
       inv_x_to_eps = \<lambda>x. x, Angle_TwoAngles = \<lambda>a b. 0,
       huber_predict = \<lambda>deg eps xs ys. ys,
       random_normal = \<lambda>loc scale (g :: nat). (real (Suc g) * scale, Suc g),
       random_shuffle = \<lambda>I g. (I, g)\<rparr>"
  let ?c = "fst (candidates ?sh (\<lambda>E PA i r. r) 7 3 1 [1/2, 1/2] [1, 1] 0)"
  note t = candidate_pool[where sh = ?sh and loss = "\<lambda>E PA i r. r" and regularize_scale = 7
      and count = 3 and i = 1 and ellip = "[1/2, 1/2]" and pa = "[1, 1]" and g = 0]
  have len: "length ?c = 6" by (rule t[THEN conjunct1])
  have g1: "rng_after ?sh 3 1 [1/2, 1/2] [1, 1] 0 (Suc 0) = Suc 0"
    by (simp add: perturb_def)
  have "0 < (5::nat)" by simp
  from t[THEN conjunct2, THEN conjunct2, THEN conjunct1, rule_format, OF this]
  have p1: "?c ! Suc 0 = ([1/2, 53/100], [1, 1], 0)" by auto
  have "Suc 0 < (5::nat)" by simp
  from t[THEN conjunct2, THEN conjunct2, THEN conjunct1, rule_format, OF this]
  have p2: "?c ! Suc (Suc 0) = ([1/2, 56/100], [1, 1], 0)" unfolding g1 by auto
  from len p1 p2 show ?thesis by simp
qed

subsection \<open>Selection and termination of the fitting loop\<close>

lemma fit_loop_exit:
  "\<not> (count < 300 \<and> count_nochange st < 3 * n)
     \<Longrightarrow> fit_loop sh loss rs n count st = (count, st)"
  by (subst fit_loop.simps, rule if_not_P)



lemma fit_loop_step:
  "count < 300 \<and> count_nochange st < 3 * n \<Longrightarrow>
     fit_loop sh loss rs n count st
       = fit_loop sh loss rs n (count + 1)
           (fold (update_index sh loss rs (count + 1))
              (fst (random_shuffle sh (index_order st) (rng st)))
              (st\<lparr>index_order := fst (random_shuffle sh (index_order st) (rng st)),
                  rng := snd (random_shuffle sh (index_order st) (rng st))\<rparr>))"
  by (subst fit_loop.simps) (simp add: Let_def split: prod.splits)

lemma length_candidates:
  "length (fst (candidates sh loss rs count i ellip pa g)) = 6"
  by (simp add: candidates_eq)

lemma update_index_win:
  fixes loss :: "real list \<Rightarrow> real list \<Rightarrow> nat \<Rightarrow> real \<Rightarrow> 'l::linorder"
  assumes "0 < np_argmin (map (\<lambda>p. snd (snd p))
              (fst (candidates sh loss rs count i (ellip_of st) (pa_of st) (rng st))))"
  shows "update_index sh loss rs count i st
     = st\<lparr>ellip_of := fst (fst (candidates sh loss rs count i (ellip_of st) (pa_of st) (rng st))
                ! np_argmin (map (\<lambda>p. snd (snd p))
                    (fst (candidates sh loss rs count i (ellip_of st) (pa_of st) (rng st))))),
          pa_of := fst (snd (fst (candidates sh loss rs count i (ellip_of st) (pa_of st) (rng st))
                ! np_argmin (map (\<lambda>p. snd (snd p))
                    (fst (candidates sh loss rs count i (ellip_of st) (pa_of st) (rng st)))))),
          count_nochange := 0,
          rng := snd (candidates sh loss rs count i (ellip_of st) (pa_of st) (rng st))\<rparr>"
  using assms unfolding update_index_def Let_def by (simp add: case_prod_beta)

lemma update_index_keep:
  fixes loss :: "real list \<Rightarrow> real list \<Rightarrow> nat \<Rightarrow> real \<Rightarrow> 'l::linorder"
  assumes "np_argmin (map (\<lambda>p. snd (snd p))
              (fst (candidates sh loss rs count i (ellip_of st) (pa_of st) (rng st)))) = 0"
  shows "update_index sh loss rs count i st
     = st\<lparr>count_nochange := count_nochange st + 1,
          rng := snd (candidates sh loss rs count i (ellip_of st) (pa_of st) (rng st))\<rparr>"
  using assms unfolding update_index_def Let_def by (simp add: case_prod_beta)




subsection \<open>The input image is not written\<close>

lemma alloc_frame:
  "alloc a h = (next_ref h, h\<lparr>cells := (cells h)(next_ref h := a), next_ref := Suc (next_ref h)\<rparr>)"
  by (simp add: alloc_def)

text \<open>
  Claim C9. A fitter called with a reference \<open>IMG\<close> into the store (an allocated one, so
  below \<open>next_ref\<close>) writes one new cell, \<^verbatim>\<open>dat = IMG - results['background']\<close> at the fresh
  reference \<open>next_ref h\<close>, which is not \<open>IMG\<close>, and no other: the cell of \<open>IMG\<close> and every
  other cell of the store hold after the call what they held before it. The whole of the fit
  is the body run on the array \<open>dat\<close> and on the shape of the image, and the pair that is
  returned holds the reference \<open>IMG\<close> that was passed in. This is so for both fitters.
\<close>

theorem fitter_frame:
  fixes shr :: "(real, 'g) shared" and shm :: "(fval, 'gm) shared"
    and h :: heap and IMG :: ref and res :: results
  assumes "IMG < next_ref h"
  defines "dat \<equiv> img_sub (cells h IMG) (background res)"
  defines "h1 \<equiv> h\<lparr>cells := (cells h)(next_ref h := dat), next_ref := Suc (next_ref h)\<rparr>"
  defines "ret \<equiv> \<lambda>b. (case b of Inl e \<Rightarrow> Inl e | Inr r \<Rightarrow> Inr (IMG, r), h1)"
  shows "Isophote_Fit_FFT_Robust shr h IMG res opts g
           = map_option ret (robust_body shr dat (max_shape (cells h IMG)) res opts g)
    \<and> Isophote_Fit_FFT_mean shm h IMG res opts gm
           = map_option ret (mean_body shm dat (max_shape (cells h IMG)) res opts gm)
    \<and> next_ref h \<noteq> IMG
    \<and> cells h1 IMG = cells h IMG
    \<and> (\<forall>p. p \<noteq> next_ref h \<longrightarrow> cells h1 p = cells h p)
    \<and> cells h1 (next_ref h) = dat
    \<and> (\<forall>out h'. Isophote_Fit_FFT_Robust shr h IMG res opts g = Some (out, h') \<longrightarrow>
          h' = h1 \<and> cells h' IMG = cells h IMG \<and> (\<forall>r. out = Inr r \<longrightarrow> fst r = IMG))
    \<and> (\<forall>out h'. Isophote_Fit_FFT_mean shm h IMG res opts gm = Some (out, h') \<longrightarrow>
          h' = h1 \<and> cells h' IMG = cells h IMG \<and> (\<forall>r. out = Inr r \<longrightarrow> fst r = IMG))"
proof -
  have ne: "next_ref h \<noteq> IMG" using assms(1) by simp
  have c1: "cells h1 IMG = cells h IMG" using ne by (simp add: h1_def)
  have c2: "\<forall>p. p \<noteq> next_ref h \<longrightarrow> cells h1 p = cells h p" by (simp add: h1_def)
  have c3: "cells h1 (next_ref h) = dat" by (simp add: h1_def)
  have al: "alloc dat h = (next_ref h, h1)" by (simp add: alloc_frame h1_def)
  have r: "Isophote_Fit_FFT_Robust shr h IMG res opts g
           = map_option ret (robust_body shr dat (max_shape (cells h IMG)) res opts g)"
    unfolding Isophote_Fit_FFT_Robust_def dat_def[symmetric] al
    by (simp add: c1 c3 ret_def split: option.splits sum.splits)
  have m: "Isophote_Fit_FFT_mean shm h IMG res opts gm
           = map_option ret (mean_body shm dat (max_shape (cells h IMG)) res opts gm)"
    unfolding Isophote_Fit_FFT_mean_def dat_def[symmetric] al
    by (simp add: c1 c3 ret_def split: option.splits sum.splits)
  have fr: "h' = h1 \<and> cells h' IMG = cells h IMG \<and> (\<forall>r. out = Inr r \<longrightarrow> fst r = IMG)"
    if "map_option ret b = Some (out, h')" for b out h'
  proof -
    from that obtain x where x: "b = Some x" "ret x = (out, h')" by (cases b) auto
    from x(2) have "h' = h1" by (simp add: ret_def)
    moreover from x(2) have "\<forall>r. out = Inr r \<longrightarrow> fst r = IMG"
      by (cases x) (auto simp: ret_def)
    ultimately show ?thesis using c1 by simp
  qed
  have fr1: "\<forall>out h'. Isophote_Fit_FFT_Robust shr h IMG res opts g = Some (out, h') \<longrightarrow>
          h' = h1 \<and> cells h' IMG = cells h IMG \<and> (\<forall>r. out = Inr r \<longrightarrow> fst r = IMG)"
    unfolding r by (intro allI impI) (rule fr)
  have fr2: "\<forall>out h'. Isophote_Fit_FFT_mean shm h IMG res opts gm = Some (out, h') \<longrightarrow>
          h' = h1 \<and> cells h' IMG = cells h IMG \<and> (\<forall>r. out = Inr r \<longrightarrow> fst r = IMG)"
    unfolding m by (intro allI impI) (rule fr)
  show ?thesis
    apply (intro conjI)
    apply (rule r)
    apply (rule m)
    apply (rule ne)
    apply (rule c1)
    apply (rule c2)
    apply (rule c3)
    apply (rule fr1)
    apply (rule fr2)
    done
qed

text \<open>
  The theorem for a store with one image of two rows at the reference 0, a background of 1
  and a first radius of 3 that is beyond half the image size 1: all five attempts give one
  radius, the fitter raises, and the store after the call holds the image at 0 as it was
  and the background-subtracted copy at the new reference 1.
\<close>

theorem fitter_frame_witness:
  "Isophote_Fit_FFT_Robust
      \<lparr>iso_extract = \<lambda>dat r e p c m b. ([] :: real list), x_to_eps = \<lambda>x. x,
       inv_x_to_eps = \<lambda>x. x, Angle_TwoAngles = \<lambda>a b. 0,
       huber_predict = \<lambda>deg eps xs ys. ys, random_normal = \<lambda>loc scale g. (scale, g),
       random_shuffle = \<lambda>I g. (I, g)\<rparr>
      \<lparr>cells = \<lambda>p. [[5, 6], [7, 8]], next_ref = 1\<rparr> 0
      \<lparr>background = 1, mask = None, psf_fwhm = 2, init_ellip = 1/2, init_pa = 0,
       center = (0, 0), background_noise = 1\<rparr>
      \<lparr>ap_scale = None, ap_fit_limit = None, ap_regularize_scale = None\<rparr> ()
    = Some (Inl InitError,
        \<lparr>cells = (\<lambda>p. [[5, 6], [7, 8]])(1 := [[4, 5], [6, 7]]), next_ref = 2\<rparr>)
   \<and> cells \<lparr>cells = (\<lambda>p. [[5, 6], [7, 8]])(1 := [[4, 5], [6, 7]]), next_ref = 2\<rparr> 0
       = [[5, 6], [7, 8]]"
proof -
  let ?sh = "\<lparr>iso_extract = \<lambda>dat r e p c m b. ([] :: real list), x_to_eps = \<lambda>x. x,
       inv_x_to_eps = \<lambda>x. x, Angle_TwoAngles = \<lambda>a b. 0,
       huber_predict = \<lambda>deg eps xs ys. ys, random_normal = \<lambda>loc scale (g :: unit). (scale, g),
       random_shuffle = \<lambda>I g. (I, g)\<rparr>"
  let ?h = "\<lparr>cells = \<lambda>p. [[5, 6], [7, 8 :: real]], next_ref = 1\<rparr>"
  let ?res = "\<lparr>background = 1, mask = None, psf_fwhm = 2, init_ellip = 1/2, init_pa = 0,
       center = (0, 0), background_noise = 1\<rparr>"
  let ?opts = "\<lparr>ap_scale = None, ap_fit_limit = None, ap_regularize_scale = None\<rparr>"
  have a: "(0 :: ref) < next_ref ?h" by simp
  note t = fitter_frame[OF a, where shr = ?sh and res = ?res and opts = ?opts and g = "()",
      THEN conjunct1]
  have g: "grow_radii below 1 q [3] = Some [3]" for below q
    by (subst grow_radii.simps) simp
  have d: "determine_radii below 1 3 scale 0 = Some (Inl InitError)" for below scale
    by (simp add: determine_radii.simps g)
  have b: "robust_body ?sh [[4, 5], [6, 7]] (Suc (Suc 0)) ?res ?opts () = Some (Inl InitError)"
    by (simp add: robust_body_def run_fit_def d)
  have "Isophote_Fit_FFT_Robust ?sh ?h 0 ?res ?opts ()
    = Some (Inl InitError,
        \<lparr>cells = (\<lambda>p. [[5, 6], [7, 8]])(1 := [[4, 5], [6, 7]]), next_ref = 2\<rparr>)"
    unfolding t by (simp add: img_sub_def max_shape_def b)
  then show ?thesis by simp
qed

subsection \<open>The infinite loss of the mean variant\<close>






subsection \<open>The position-angle smoother\<close>

lemma py_fmod_range:
  assumes "0 < m"
  shows "0 \<le> py_fmod x m" and "py_fmod x m < m"
proof -
  have a: "of_int \<lfloor>x / m\<rfloor> \<le> x / m" by (rule of_int_floor_le)
  have b: "x / m < of_int \<lfloor>x / m\<rfloor> + 1" by linarith
  have "m * of_int \<lfloor>x / m\<rfloor> \<le> m * (x / m)"
    by (rule mult_left_mono[OF a]) (use assms in simp)
  also have "m * (x / m) = x" using assms by simp
  finally show "0 \<le> py_fmod x m" by (simp add: py_fmod_def)
  have "m * (x / m) < m * (of_int \<lfloor>x / m\<rfloor> + 1)"
    by (rule mult_strict_left_mono[OF b assms])
  then have "x < m * (of_int \<lfloor>x / m\<rfloor> + 1)" using assms by simp
  then show "py_fmod x m < m" by (simp add: py_fmod_def algebra_simps)
qed

lemma pa_recombine_range: "0 \<le> pa_recombine s c" "pa_recombine s c < pi"
proof -
  have p: "(0 :: real) < 2 * pi" by simp
  show "0 \<le> pa_recombine s c"
    using py_fmod_range(1)[OF p] by (simp add: pa_recombine_def)
  show "pa_recombine s c < pi"
    using py_fmod_range(2)[OF p, of "arctan (s / c) + pi * (if c < 0 then 1 else 0)"]
    by (simp add: pa_recombine_def)
qed

lemma pa_smooth_eq:
  "pa_smooth sh R PA deg
     = map2 pa_recombine
         (np_clip (- 1) 1 (huber_predict sh deg 1.35 (map (log 10) R)
                             (map (\<lambda>p. sin (2 * p)) PA)))
         (np_clip (- 1) 1 (huber_predict sh deg 1.35 (map (log 10) R)
                             (map (\<lambda>p. cos (2 * p)) PA)))"
  by (simp add: pa_smooth_def Let_def)

lemma py_fmod_shift: "\<exists>n :: int. py_fmod x m = x - m * of_int n"
  by (auto simp: py_fmod_def)

lemma cos_sin_py_fmod:
  "cos (py_fmod x (2 * pi)) = cos x" "sin (py_fmod x (2 * pi)) = sin x"
proof -
  obtain n :: int where n: "py_fmod x (2 * pi) = x - 2 * pi * of_int n"
    using py_fmod_shift by blast
  show "cos (py_fmod x (2 * pi)) = cos x"
    unfolding n by (simp add: cos_diff cos_int_2pin sin_int_2pin)
  show "sin (py_fmod x (2 * pi)) = sin x"
    unfolding n by (simp add: sin_diff cos_int_2pin sin_int_2pin)
qed

lemma sqrt_quot:
  fixes s c :: real
  assumes "c \<noteq> 0"
  shows "sqrt (1 + (s / c)\<^sup>2) = sqrt (s\<^sup>2 + c\<^sup>2) / \<bar>c\<bar>"
proof -
  have "1 + (s / c)\<^sup>2 = (s\<^sup>2 + c\<^sup>2) / c\<^sup>2"
    using assms by (simp add: field_simps power2_eq_square)
  then show ?thesis by (simp add: real_sqrt_divide)
qed

lemma pa_recombine_angle:
  assumes "c \<noteq> 0"
  shows "cos (2 * pa_recombine s c) = c / sqrt (s\<^sup>2 + c\<^sup>2)"
    and "sin (2 * pa_recombine s c) = s / sqrt (s\<^sup>2 + c\<^sup>2)"
proof -
  have e: "2 * pa_recombine s c
             = py_fmod (arctan (s / c) + pi * (if c < 0 then 1 else 0)) (2 * pi)"
    by (simp add: pa_recombine_def)
  have pos: "0 < sqrt (s\<^sup>2 + c\<^sup>2)"
    using assms by (simp add: sum_power2_gt_zero_iff)
  show "cos (2 * pa_recombine s c) = c / sqrt (s\<^sup>2 + c\<^sup>2)"
  proof (cases "c < 0")
    case True
    then show ?thesis
      unfolding e cos_sin_py_fmod using assms
      by (simp add: cos_arctan sqrt_quot)
  next
    case False
    then show ?thesis
      unfolding e cos_sin_py_fmod using assms
      by (simp add: cos_arctan sqrt_quot)
  qed
  show "sin (2 * pa_recombine s c) = s / sqrt (s\<^sup>2 + c\<^sup>2)"
  proof (cases "c < 0")
    case True
    then show ?thesis
      unfolding e cos_sin_py_fmod using assms
      by (simp add: sin_arctan sqrt_quot)
  next
    case False
    then show ?thesis
      unfolding e cos_sin_py_fmod using assms
      by (simp add: sin_arctan sqrt_quot)
  qed
qed

text \<open>
  Claim C7. The smoother predicts \<open>sin (2 PA)\<close> and \<open>cos (2 PA)\<close> from \<open>log\<^sub>1\<^sub>0 R\<close> with two
  robust regressions of the degree it is given (the fitters pass 5) and the default
  \<^verbatim>\<open>epsilon\<close>, clips both predictions to \<open>[-1, 1]\<close>, and returns at every index \<open>k\<close> the
  angle \<open>((arctan (s\<^sub>k / c\<^sub>k) + \<pi> [c\<^sub>k < 0]) mod 2\<pi>) / 2\<close> of the clipped predictions \<open>s\<^sub>k\<close> and
  \<open>c\<^sub>k\<close>. The result has one angle for each index that both predictions have, so one for each
  radius when the regressions predict at every radius. Every angle lies in \<open>[0, \<pi>)\<close>, and
  where \<open>c\<^sub>k \<noteq> 0\<close> twice the angle has the direction of \<open>(c\<^sub>k, s\<^sub>k)\<close>. (Where \<open>c\<^sub>k = 0\<close> the
  quotient of the source is infinite or not a number; the real quotient is 0 there.)
\<close>

theorem pa_smooth_range:
  fixes sh :: "('s, 'g) shared" and R PA :: "real list" and deg :: nat
  defines "pred_s \<equiv> huber_predict sh deg 1.35 (map (log 10) R) (map (\<lambda>p. sin (2 * p)) PA)"
  defines "pred_c \<equiv> huber_predict sh deg 1.35 (map (log 10) R) (map (\<lambda>p. cos (2 * p)) PA)"
  defines "clip \<equiv> \<lambda>x :: real. min (max x (- 1)) 1"
  defines "out \<equiv> pa_smooth sh R PA deg"
  shows "length out = min (length pred_s) (length pred_c)
    \<and> (length pred_s = length R \<and> length pred_c = length R \<longrightarrow> length out = length R)
    \<and> (\<forall>k<length out.
          out ! k = py_fmod (arctan (clip (pred_s ! k) / clip (pred_c ! k))
                             + pi * (if clip (pred_c ! k) < 0 then 1 else 0)) (2 * pi) / 2
          \<and> - 1 \<le> clip (pred_s ! k) \<and> clip (pred_s ! k) \<le> 1
          \<and> - 1 \<le> clip (pred_c ! k) \<and> clip (pred_c ! k) \<le> 1
          \<and> 0 \<le> out ! k \<and> out ! k < pi
          \<and> (clip (pred_c ! k) \<noteq> 0 \<longrightarrow>
                cos (2 * out ! k)
                  = clip (pred_c ! k) / sqrt ((clip (pred_s ! k))\<^sup>2 + (clip (pred_c ! k))\<^sup>2)
                \<and> sin (2 * out ! k)
                  = clip (pred_s ! k) / sqrt ((clip (pred_s ! k))\<^sup>2 + (clip (pred_c ! k))\<^sup>2)))
    \<and> (\<forall>x. 0 \<le> py_fmod x (2 * pi) \<and> py_fmod x (2 * pi) < 2 * pi
            \<and> (\<exists>n :: int. py_fmod x (2 * pi) = x - 2 * pi * of_int n))"
proof -
  have o: "out = map2 pa_recombine (map clip pred_s) (map clip pred_c)"
    by (simp add: out_def pa_smooth_eq np_clip_def pred_s_def pred_c_def clip_def)
  have len: "length out = min (length pred_s) (length pred_c)" by (simp add: o)
  have lenR: "length pred_s = length R \<and> length pred_c = length R \<longrightarrow> length out = length R"
    by (simp add: len)
  have el: "out ! k = py_fmod (arctan (clip (pred_s ! k) / clip (pred_c ! k))
                             + pi * (if clip (pred_c ! k) < 0 then 1 else 0)) (2 * pi) / 2
          \<and> - 1 \<le> clip (pred_s ! k) \<and> clip (pred_s ! k) \<le> 1
          \<and> - 1 \<le> clip (pred_c ! k) \<and> clip (pred_c ! k) \<le> 1
          \<and> 0 \<le> out ! k \<and> out ! k < pi
          \<and> (clip (pred_c ! k) \<noteq> 0 \<longrightarrow>
                cos (2 * out ! k)
                  = clip (pred_c ! k) / sqrt ((clip (pred_s ! k))\<^sup>2 + (clip (pred_c ! k))\<^sup>2)
                \<and> sin (2 * out ! k)
                  = clip (pred_s ! k) / sqrt ((clip (pred_s ! k))\<^sup>2 + (clip (pred_c ! k))\<^sup>2))"
    if k: "k < length out" for k
  proof -
    have ks: "k < length pred_s" and kc: "k < length pred_c" using k len by simp_all
    have v: "out ! k = pa_recombine (clip (pred_s ! k)) (clip (pred_c ! k))"
      using ks kc by (simp add: o)
    have f: "out ! k = py_fmod (arctan (clip (pred_s ! k) / clip (pred_c ! k))
                             + pi * (if clip (pred_c ! k) < 0 then 1 else 0)) (2 * pi) / 2"
      unfolding v by (simp add: pa_recombine_def)
    have b: "- 1 \<le> clip x \<and> clip x \<le> 1" for x by (simp add: clip_def)
    have r: "0 \<le> out ! k \<and> out ! k < pi"
      unfolding v by (simp add: pa_recombine_range)
    have a: "clip (pred_c ! k) \<noteq> 0 \<longrightarrow>
                cos (2 * out ! k)
                  = clip (pred_c ! k) / sqrt ((clip (pred_s ! k))\<^sup>2 + (clip (pred_c ! k))\<^sup>2)
                \<and> sin (2 * out ! k)
                  = clip (pred_s ! k) / sqrt ((clip (pred_s ! k))\<^sup>2 + (clip (pred_c ! k))\<^sup>2)"
      unfolding v by (simp add: pa_recombine_angle)
    show ?thesis
      apply (intro conjI)
      apply (rule f)
      apply (rule b[THEN conjunct1])
      apply (rule b[THEN conjunct2])
      apply (rule b[THEN conjunct1])
      apply (rule b[THEN conjunct2])
      apply (rule r[THEN conjunct1])
      apply (rule r[THEN conjunct2])
      apply (rule a)
      done
  qed
  have el': "\<forall>k<length out.
          out ! k = py_fmod (arctan (clip (pred_s ! k) / clip (pred_c ! k))
                             + pi * (if clip (pred_c ! k) < 0 then 1 else 0)) (2 * pi) / 2
          \<and> - 1 \<le> clip (pred_s ! k) \<and> clip (pred_s ! k) \<le> 1
          \<and> - 1 \<le> clip (pred_c ! k) \<and> clip (pred_c ! k) \<le> 1
          \<and> 0 \<le> out ! k \<and> out ! k < pi
          \<and> (clip (pred_c ! k) \<noteq> 0 \<longrightarrow>
                cos (2 * out ! k)
                  = clip (pred_c ! k) / sqrt ((clip (pred_s ! k))\<^sup>2 + (clip (pred_c ! k))\<^sup>2)
                \<and> sin (2 * out ! k)
                  = clip (pred_s ! k) / sqrt ((clip (pred_s ! k))\<^sup>2 + (clip (pred_c ! k))\<^sup>2))"
    by (intro allI impI) (rule el)
  have md: "\<forall>x. 0 \<le> py_fmod x (2 * pi) \<and> py_fmod x (2 * pi) < 2 * pi
            \<and> (\<exists>n :: int. py_fmod x (2 * pi) = x - 2 * pi * of_int n)"
    using py_fmod_shift[of _ "2 * pi"] py_fmod_range[of "2 * pi"] by simp
  show ?thesis by (rule conjI[OF len conjI[OF lenR conjI[OF el' md]]])
qed

text \<open>
  The theorem for two radii and the angles 0 and \<open>\<pi>/2\<close>, with regressions that predict their
  targets: at the index 1 the predictions are \<open>sin \<pi> = 0\<close> and \<open>cos \<pi> = -1\<close>, and the angle
  returned is \<open>\<pi>/2\<close>.
\<close>

theorem pa_smooth_range_witness:
  "length (pa_smooth
      \<lparr>iso_extract = \<lambda>dat r e p c m b. ([] :: real list), x_to_eps = \<lambda>x. x,
       inv_x_to_eps = \<lambda>x. x, Angle_TwoAngles = \<lambda>a b. 0,
       huber_predict = \<lambda>deg eps xs ys. ys, random_normal = \<lambda>loc scale (g :: unit). (scale, g),
       random_shuffle = \<lambda>I g. (I, g)\<rparr> [1, 10] [0, pi / 2] 5) = 2
   \<and> pa_smooth
      \<lparr>iso_extract = \<lambda>dat r e p c m b. ([] :: real list), x_to_eps = \<lambda>x. x,
       inv_x_to_eps = \<lambda>x. x, Angle_TwoAngles = \<lambda>a b. 0,
       huber_predict = \<lambda>deg eps xs ys. ys, random_normal = \<lambda>loc scale (g :: unit). (scale, g),
       random_shuffle = \<lambda>I g. (I, g)\<rparr> [1, 10] [0, pi / 2] 5 ! 1 = pi / 2"
proof -
  let ?sh = "\<lparr>iso_extract = \<lambda>dat r e p c m b. ([] :: real list), x_to_eps = \<lambda>x. x,
       inv_x_to_eps = \<lambda>x. x, Angle_TwoAngles = \<lambda>a b. 0,
       huber_predict = \<lambda>deg eps xs ys. ys, random_normal = \<lambda>loc scale (g :: unit). (scale, g),
       random_shuffle = \<lambda>I g. (I, g)\<rparr>"
  let ?out = "pa_smooth ?sh [1, 10] [0, pi / 2] 5"
  note t = pa_smooth_range[where sh = ?sh and R = "[1, 10]" and PA = "[0, pi / 2]" and deg = 5]
  have len: "length ?out = 2" using t[THEN conjunct1] by simp
  have k: "1 < length ?out" unfolding len by simp
  have fl: "\<lfloor>pi / (2 * pi)\<rfloor> = 0" by simp
  have v: "?out ! 1 = pi / 2"
    using t[THEN conjunct2, THEN conjunct2, THEN conjunct1, rule_format, OF k, THEN conjunct1]
    by (simp add: py_fmod_def)
  show ?thesis by (rule conjI[OF len v])
qed

subsection \<open>The lengths of the parameter arrays\<close>

lemma candidates_nth:
  "j < 6 \<Longrightarrow>
     fst (candidates sh loss rs count i ellip pa g) ! j
       = (if j = 0 then (ellip, pa, loss ellip pa i (if count > 4 then rs else 0))
          else nth_perturbation sh loss rs count i ellip pa g (j - 1))"
  by (cases j) (simp_all add: candidates_eq)

lemma length_nth_perturbation:
  "length (fst (nth_perturbation sh loss rs count i ellip pa g n)) = length ellip"
  "length (fst (snd (nth_perturbation sh loss rs count i ellip pa g n))) = length pa"
  by (simp_all add: nth_perturbation_def Let_def length_perturb)

lemma candidates_lengths:
  assumes "j < 6"
  shows "length (fst (fst (candidates sh loss rs count i ellip pa g) ! j)) = length ellip"
    and "length (fst (snd (fst (candidates sh loss rs count i ellip pa g) ! j))) = length pa"
  using assms by (simp_all add: candidates_nth length_nth_perturbation)

lemma update_index_lengths:
  fixes loss :: "real list \<Rightarrow> real list \<Rightarrow> nat \<Rightarrow> real \<Rightarrow> 'l::linorder"
  shows "length (ellip_of (update_index sh loss rs count i st)) = length (ellip_of st)"
    and "length (pa_of (update_index sh loss rs count i st)) = length (pa_of st)"
    and "index_order (update_index sh loss rs count i st) = index_order st"
proof -
  let ?ps = "fst (candidates sh loss rs count i (ellip_of st) (pa_of st) (rng st))"
  let ?b = "np_argmin (map (\<lambda>p. snd (snd p)) ?ps)"
  have "length (map (\<lambda>p. snd (snd p)) ?ps) = 6" by (simp add: length_candidates)
  then have "map (\<lambda>p. snd (snd p)) ?ps \<noteq> []" by (metis length_0_conv zero_neq_numeral)
  from np_argmin_spec(1)[OF this] have b: "?b < 6" by (simp add: length_candidates)
  show "length (ellip_of (update_index sh loss rs count i st)) = length (ellip_of st)"
    using candidates_lengths(1)[OF b, of sh loss rs count i "ellip_of st" "pa_of st" "rng st"]
    by (cases "0 < ?b") (simp_all add: update_index_win update_index_keep)
  show "length (pa_of (update_index sh loss rs count i st)) = length (pa_of st)"
    using candidates_lengths(2)[OF b, of sh loss rs count i "ellip_of st" "pa_of st" "rng st"]
    by (cases "0 < ?b") (simp_all add: update_index_win update_index_keep)
  show "index_order (update_index sh loss rs count i st) = index_order st"
    by (cases "0 < ?b") (simp_all add: update_index_win update_index_keep)
qed

lemma fold_update_index_lengths:
  fixes loss :: "real list \<Rightarrow> real list \<Rightarrow> nat \<Rightarrow> real \<Rightarrow> 'l::linorder"
  shows "length (ellip_of (fold (update_index sh loss rs count) I st)) = length (ellip_of st)
       \<and> length (pa_of (fold (update_index sh loss rs count) I st)) = length (pa_of st)"
  by (induction I arbitrary: st) (simp_all add: update_index_lengths)

lemma fit_loop_lengths:
  fixes loss :: "real list \<Rightarrow> real list \<Rightarrow> nat \<Rightarrow> real \<Rightarrow> 'l::linorder"
  shows "length (ellip_of (snd (fit_loop sh loss rs n count st))) = length (ellip_of st)
       \<and> length (pa_of (snd (fit_loop sh loss rs n count st))) = length (pa_of st)"
proof (induction sh loss rs n count st rule: fit_loop.induct)
  case (1 sh loss rs n count st)
  show ?case
  proof (cases "count < 300 \<and> count_nochange st < 3 * n")
    case False
    then show ?thesis by (simp add: fit_loop_exit)
  next
    case True
    let ?sf = "random_shuffle sh (index_order st) (rng st)"
    let ?st3 = "fold (update_index sh loss rs (count + 1)) (fst ?sf)
                  (st\<lparr>index_order := fst ?sf, rng := snd ?sf\<rparr>)"
    have IH: "length (ellip_of (snd (fit_loop sh loss rs n (count + 1) ?st3))) = length (ellip_of ?st3)
       \<and> length (pa_of (snd (fit_loop sh loss rs n (count + 1) ?st3))) = length (pa_of ?st3)"
      using "1.IH"[OF True refl _ refl, of "fst ?sf" "snd ?sf"] by simp
    show ?thesis
      unfolding fit_loop_step[OF True] using IH
      by (simp add: fold_update_index_lengths)
  qed
qed

subsection \<open>The loop at a minimum of the loss\<close>

lemma np_argmin_first:
  fixes ls :: "'a::linorder list"
  assumes "ls \<noteq> []" and "\<forall>j<length ls. ls ! 0 \<le> ls ! j"
  shows "np_argmin ls = 0"
proof (rule ccontr)
  assume "np_argmin ls \<noteq> 0"
  then have "0 < np_argmin ls" by simp
  from np_argmin_spec(3)[OF assms(1) this] have "ls ! np_argmin ls < ls ! 0" .
  moreover have "ls ! 0 \<le> ls ! np_argmin ls"
    using assms(2) np_argmin_spec(1)[OF assms(1)] by simp
  ultimately show False by simp
qed

lemma update_index_at_minimum:
  fixes loss :: "real list \<Rightarrow> real list \<Rightarrow> nat \<Rightarrow> real \<Rightarrow> 'l::linorder"
  assumes "\<forall>E' PA' r. loss (ellip_of st) (pa_of st) i r \<le> loss E' PA' i r"
  shows "ellip_of (update_index sh loss rs count i st) = ellip_of st"
    and "pa_of (update_index sh loss rs count i st) = pa_of st"
    and "count_nochange (update_index sh loss rs count i st) = count_nochange st + 1"
proof -
  let ?ps = "fst (candidates sh loss rs count i (ellip_of st) (pa_of st) (rng st))"
  let ?ls = "map (\<lambda>p. snd (snd p)) ?ps"
  have len: "length ?ls = 6" by (simp add: length_candidates)
  then have ne: "?ls \<noteq> []" by (metis length_0_conv zero_neq_numeral)
  have "?ls ! 0 \<le> ?ls ! j" if "j < 6" for j
    using that assms
    by (cases j) (simp_all add: candidates_eq nth_perturbation_def Let_def)
  then have "np_argmin ?ls = 0" using np_argmin_first[OF ne] len by simp
  then have u: "update_index sh loss rs count i st
     = st\<lparr>count_nochange := count_nochange st + 1,
          rng := snd (candidates sh loss rs count i (ellip_of st) (pa_of st) (rng st))\<rparr>"
    by (rule update_index_keep)
  show "ellip_of (update_index sh loss rs count i st) = ellip_of st"
    and "pa_of (update_index sh loss rs count i st) = pa_of st"
    and "count_nochange (update_index sh loss rs count i st) = count_nochange st + 1"
    unfolding u by simp_all
qed

lemma fold_update_index_at_minimum:
  fixes loss :: "real list \<Rightarrow> real list \<Rightarrow> nat \<Rightarrow> real \<Rightarrow> 'l::linorder"
  assumes "\<forall>i E' PA' r. loss (ellip_of st) (pa_of st) i r \<le> loss E' PA' i r"
  shows "ellip_of (fold (update_index sh loss rs count) I st) = ellip_of st
       \<and> pa_of (fold (update_index sh loss rs count) I st) = pa_of st"
  using assms
proof (induction I arbitrary: st)
  case Nil
  then show ?case by simp
next
  case (Cons i I)
  let ?st1 = "update_index sh loss rs count i st"
  have e: "ellip_of ?st1 = ellip_of st" "pa_of ?st1 = pa_of st"
    using update_index_at_minimum(1,2)[of loss st i] Cons.prems by simp_all
  have "\<forall>i E' PA' r. loss (ellip_of ?st1) (pa_of ?st1) i r \<le> loss E' PA' i r"
    unfolding e by (rule Cons.prems)
  from Cons.IH[OF this] show ?case by (simp add: e)
qed

lemma fit_loop_at_minimum:
  fixes loss :: "real list \<Rightarrow> real list \<Rightarrow> nat \<Rightarrow> real \<Rightarrow> 'l::linorder"
  assumes "\<forall>i E' PA' r. loss (ellip_of st) (pa_of st) i r \<le> loss E' PA' i r"
  shows "ellip_of (snd (fit_loop sh loss rs n count st)) = ellip_of st
       \<and> pa_of (snd (fit_loop sh loss rs n count st)) = pa_of st"
  using assms
proof (induction sh loss rs n count st rule: fit_loop.induct)
  case (1 sh loss rs n count st)
  show ?case
  proof (cases "count < 300 \<and> count_nochange st < 3 * n")
    case False
    then show ?thesis by (simp add: fit_loop_exit)
  next
    case True
    let ?sf = "random_shuffle sh (index_order st) (rng st)"
    let ?st2 = "st\<lparr>index_order := fst ?sf, rng := snd ?sf\<rparr>"
    let ?st3 = "fold (update_index sh loss rs (count + 1)) (fst ?sf) ?st2"
    have m2: "\<forall>i E' PA' r. loss (ellip_of ?st2) (pa_of ?st2) i r \<le> loss E' PA' i r"
      using "1.prems" by simp
    have e3: "ellip_of ?st3 = ellip_of st" "pa_of ?st3 = pa_of st"
      using fold_update_index_at_minimum[OF m2, of sh rs "count + 1" "fst ?sf"] by simp_all
    have m3: "\<forall>i E' PA' r. loss (ellip_of ?st3) (pa_of ?st3) i r \<le> loss E' PA' i r"
      unfolding e3 by (rule "1.prems")
    have IH: "ellip_of (snd (fit_loop sh loss rs n (count + 1) ?st3)) = ellip_of ?st3
       \<and> pa_of (snd (fit_loop sh loss rs n (count + 1) ?st3)) = pa_of ?st3"
      using "1.IH"[OF True refl _ refl, of "fst ?sf" "snd ?sf"] m3 by simp
    show ?thesis
      unfolding fit_loop_step[OF True] using IH e3 by simp
  qed
qed

subsection \<open>The collapsed centre\<close>

lemma fill_prefix_cong_drop:
  assumes "length xs = length ys" and "drop k xs = drop k ys"
  shows "fill_prefix k v xs = fill_prefix k v ys"
  using assms by (simp add: fill_prefix_def)

lemma drop_fill_prefix:
  "k \<le> n \<Longrightarrow> drop n (fill_prefix k v xs) = drop n xs"
  by (simp add: fill_prefix_def min_def)

lemma collapse_step_inv:
  "length (fst (collapse_step tr i ep)) = length (fst ep)"
  "length (snd (collapse_step tr i ep)) = length (snd ep)"
  "drop (Suc i) (fst (collapse_step tr i ep)) = drop (Suc i) (fst ep)"
  "drop (Suc i) (snd (collapse_step tr i ep)) = drop (Suc i) (snd ep)"
  by (simp_all add: collapse_step_def Let_def drop_fill_prefix)

lemma collapse_fold_inv:
  assumes "length p = length e"
  shows "length (fst (fold (collapse_step tr) [0..<n] (e, p))) = length e
       \<and> length (snd (fold (collapse_step tr) [0..<n] (e, p))) = length e
       \<and> drop n (fst (fold (collapse_step tr) [0..<n] (e, p))) = drop n e
       \<and> drop n (snd (fold (collapse_step tr) [0..<n] (e, p))) = drop n p"
proof (induction n)
  case 0
  then show ?case using assms by simp
next
  case (Suc n)
  let ?ep = "fold (collapse_step tr) [0..<n] (e, p)"
  have d: "drop (Suc n) (fst ?ep) = drop (Suc n) e" "drop (Suc n) (snd ?ep) = drop (Suc n) p"
    using Suc by (metis drop_drop plus_1_eq_Suc)+
  have f: "fold (collapse_step tr) [0..<Suc n] (e, p) = collapse_step tr n ?ep" by simp
  show ?case
    unfolding f collapse_step_inv d using Suc by simp
qed

lemma collapse_fold_reads:
  assumes "length p = length e" and "n \<le> length e"
  shows "fst (fold (collapse_step tr) [0..<n] (e, p)) ! (n + j) = e ! (n + j)"
    and "snd (fold (collapse_step tr) [0..<n] (e, p)) ! (n + j) = p ! (n + j)"
proof -
  let ?ep = "fold (collapse_step tr) [0..<n] (e, p)"
  note i = collapse_fold_inv[OF assms(1), of tr n]
  have le: "n \<le> length (fst ?ep)" "n \<le> length (snd ?ep)" "n \<le> length p"
    using i assms by simp_all
  have "fst ?ep ! (n + j) = drop n (fst ?ep) ! j" by (rule nth_drop[OF le(1), symmetric])
  also have "\<dots> = drop n e ! j" using i by simp
  also have "\<dots> = e ! (n + j)" by (rule nth_drop[OF assms(2)])
  finally show "fst ?ep ! (n + j) = e ! (n + j)" .
  have "snd ?ep ! (n + j) = drop n (snd ?ep) ! j" by (rule nth_drop[OF le(2), symmetric])
  also have "\<dots> = drop n p ! j" using i by simp
  also have "\<dots> = p ! (n + j)" by (rule nth_drop[OF le(3)])
  finally show "snd ?ep ! (n + j) = p ! (n + j)" .
qed

lemma collapse_fold_step:
  assumes "length p = length e" and "n \<le> length e"
  shows "fold (collapse_step tr) [0..<Suc n] (e, p)
     = (if tr (e ! n) - tr (e ! (n + 1)) > 0.5
        then (fill_prefix (n + 1) (e ! (n + 1)) e, fill_prefix (n + 1) (p ! (n + 1)) p)
        else fold (collapse_step tr) [0..<n] (e, p))"
proof -
  let ?ep = "fold (collapse_step tr) [0..<n] (e, p)"
  note i = collapse_fold_inv[OF assms(1), of tr n]
  have r0: "fst ?ep ! n = e ! n"
    using collapse_fold_reads(1)[OF assms, of tr 0] by simp
  have r1: "fst ?ep ! (n + 1) = e ! (n + 1)" "snd ?ep ! (n + 1) = p ! (n + 1)"
    using collapse_fold_reads[OF assms, of tr 1] by simp_all
  have d: "drop (n + 1) (fst ?ep) = drop (n + 1) e" "drop (n + 1) (snd ?ep) = drop (n + 1) p"
    using i by (metis drop_drop add.commute)+
  have f1: "fill_prefix (n + 1) v (fst ?ep) = fill_prefix (n + 1) v e" for v
    by (rule fill_prefix_cong_drop) (use i d in simp_all)
  have f2: "fill_prefix (n + 1) v (snd ?ep) = fill_prefix (n + 1) v p" for v
    by (rule fill_prefix_cong_drop) (use i d assms in simp_all)
  have "fold (collapse_step tr) [0..<Suc n] (e, p) = collapse_step tr n ?ep" by simp
  also have "\<dots> = (if tr (e ! n) - tr (e ! (n + 1)) > 0.5
        then (fill_prefix (n + 1) (e ! (n + 1)) e, fill_prefix (n + 1) (p ! (n + 1)) p)
        else ?ep)"
    unfolding collapse_step_def Let_def r0 r1 f1 f2 by simp
  finally show ?thesis .
qed

lemma collapse_fold_none:
  assumes "length p = length e" and "n \<le> length e"
    and "\<forall>i<n. \<not> tr (e ! i) - tr (e ! (i + 1)) > 0.5"
  shows "fold (collapse_step tr) [0..<n] (e, p) = (e, p)"
  using assms(2,3)
proof (induction n)
  case 0
  then show ?case by simp
next
  case (Suc n)
  have "fold (collapse_step tr) [0..<Suc n] (e, p) = fold (collapse_step tr) [0..<n] (e, p)"
    using Suc.prems by (subst collapse_fold_step[OF assms(1)]) simp_all
  then show ?case using Suc by simp
qed

lemma collapse_fold_last:
  assumes "length p = length e" and "n \<le> length e"
    and "m < n" and "tr (e ! m) - tr (e ! (m + 1)) > 0.5"
    and "\<forall>i. m < i \<and> i < n \<longrightarrow> \<not> tr (e ! i) - tr (e ! (i + 1)) > 0.5"
  shows "fold (collapse_step tr) [0..<n] (e, p)
           = (fill_prefix (m + 1) (e ! (m + 1)) e, fill_prefix (m + 1) (p ! (m + 1)) p)"
  using assms(2,3,5)
proof (induction n)
  case 0
  then show ?case by simp
next
  case (Suc n)
  have n: "n \<le> length e" using Suc.prems by simp
  show ?case
  proof (cases "m = n")
    case True
    then show ?thesis
      using assms(4) by (subst collapse_fold_step[OF assms(1) n]) simp
  next
    case False
    then have mn: "m < n" using Suc.prems by simp
    have nd: "\<not> tr (e ! n) - tr (e ! (n + 1)) > 0.5" using Suc.prems mn by simp
    have "fold (collapse_step tr) [0..<Suc n] (e, p) = fold (collapse_step tr) [0..<n] (e, p)"
      using nd by (subst collapse_fold_step[OF assms(1) n]) simp
    then show ?thesis using Suc.IH[OF n mn] Suc.prems by simp
  qed
qed

subsection \<open>The fit as a whole\<close>

lemma length_clamp_first3 [simp]: "length (clamp_first3 ellip) = length ellip"
  by (simp add: clamp_first3_def)

lemma length_compute_err:
  assumes "compute_err raw smooth = Inr err"
  shows "length err = length raw"
proof (cases "raw = []")
  case True
  then show ?thesis using assms by (simp add: compute_err_def)
next
  case False
  from assms show ?thesis
    unfolding compute_err_Inr[OF False] by (auto simp: length_err_fold)
qed

lemma length_fitted:
  fixes loss :: "real list \<Rightarrow> real list \<Rightarrow> real list \<Rightarrow> nat \<Rightarrow> real \<Rightarrow> 'l::linorder"
  shows "length (ellip_of (fitted sh loss rs e0 p0 R g)) = length R"
    and "length (pa_of (fitted sh loss rs e0 p0 R g)) = length R"
  using fit_loop_lengths[of sh "loss R" rs "length R" 0
      "\<lparr>ellip_of = replicate (length R) e0, pa_of = replicate (length R) p0,
        count_nochange = 0, index_order = [0..<length R], rng = g\<rparr>"]
  by (simp_all add: fitted_def)

lemma length_flattened:
  fixes loss :: "real list \<Rightarrow> real list \<Rightarrow> real list \<Rightarrow> nat \<Rightarrow> real \<Rightarrow> 'l::linorder"
  shows "length (fst (flattened sh loss rs e0 p0 R g)) = length R"
    and "length (snd (flattened sh loss rs e0 p0 R g)) = length R"
  using collapse_fold_inv[of "pa_of (fitted sh loss rs e0 p0 R g)"
      "ellip_of (fitted sh loss rs e0 p0 R g)" "inv_x_to_eps sh" 5]
  by (simp_all add: flattened_def length_fitted)

lemma fit_profile_short:
  fixes loss :: "real list \<Rightarrow> real list \<Rightarrow> real list \<Rightarrow> nat \<Rightarrow> real \<Rightarrow> 'l::linorder"
  assumes "length R < 6"
  shows "fit_profile sh loss rs e0 p0 R g = Inl IndexError"
  using assms length_fitted[of sh loss rs e0 p0 R g]
  by (simp add: fit_profile_def Let_def detect_collapsed_center_def fitted_def)

lemma fit_profile_Inr:
  fixes loss :: "real list \<Rightarrow> real list \<Rightarrow> real list \<Rightarrow> nat \<Rightarrow> real \<Rightarrow> 'l::linorder"
  assumes "6 \<le> length R"
  shows "\<exists>ee pe.
      compute_err (clamp_first3 (fst (flattened sh loss rs e0 p0 R g)))
        (ellip_smooth sh R (fst (flattened sh loss rs e0 p0 R g)) 5) = Inr ee
    \<and> compute_err (snd (flattened sh loss rs e0 p0 R g))
        (pa_smooth sh R (snd (flattened sh loss rs e0 p0 R g)) 5) = Inr pe
    \<and> fit_profile sh loss rs e0 p0 R g
        = Inr \<lparr>fit_ellip = clamp_first3 (fst (flattened sh loss rs e0 p0 R g)),
               fit_pa = snd (flattened sh loss rs e0 p0 R g), fit_R = R,
               fit_ellip_err = ee, fit_pa_err = pe, auxfile_fitlimit = last R\<rparr>"
proof -
  let ?f = "flattened sh loss rs e0 p0 R g"
  have l: "length (fst ?f) = length R" "length (snd ?f) = length R"
    by (rule length_flattened)+
  have ne1: "clamp_first3 (fst ?f) \<noteq> []"
  proof
    assume a: "clamp_first3 (fst ?f) = []"
    have "length (clamp_first3 (fst ?f)) = length R" using l by simp
    then show False unfolding a using assms by simp
  qed
  have ne2: "snd ?f \<noteq> []" using assms l by auto
  obtain ee where ee: "compute_err (clamp_first3 (fst ?f)) (ellip_smooth sh R (fst ?f) 5) = Inr ee"
    using compute_err_Inr[OF ne1] by blast
  obtain pe where pe: "compute_err (snd ?f) (pa_smooth sh R (snd ?f) 5) = Inr pe"
    using compute_err_Inr[OF ne2] by blast
  have d: "detect_collapsed_center (inv_x_to_eps sh)
             (ellip_of (fitted sh loss rs e0 p0 R g)) (pa_of (fitted sh loss rs e0 p0 R g))
           = Inr ?f"
    using assms by (simp add: detect_collapsed_center_def length_fitted flattened_def)
  have "fit_profile sh loss rs e0 p0 R g
        = Inr \<lparr>fit_ellip = clamp_first3 (fst ?f), fit_pa = snd ?f, fit_R = R,
               fit_ellip_err = ee, fit_pa_err = pe, auxfile_fitlimit = last R\<rparr>"
    unfolding fit_profile_def Let_def fitted_def[symmetric] d
    by (simp add: ee pe)
  with ee pe show ?thesis by blast
qed

subsection \<open>A fit that moves the innermost ellipticity\<close>

text \<open>
  Six radii, identity transforms, regressions that predict their targets, a random source
  whose draw is \<open>d\<close> at the scale 3/100 and 0 at any other scale, and a loss that is 0 when
  the ellipticity at the index 0 is \<open>1/2 + d\<close> and 1 otherwise. In the first pass the
  perturbation of the index 0 is accepted; from then on the arrays are at a minimum of the
  loss and stay.
\<close>

lemma replicate_6: "replicate 6 x = [x, x, x, x, x, x]"
  by (simp add: numeral_eq_Suc)

lemma upt_6: "[0..<6] = [0, 1, 2, 3, 4, 5]"
  by (simp add: upt_rec)

lemma example_fitted:
  fixes sh :: "(real, unit) shared"
  assumes sh: "sh = \<lparr>iso_extract = \<lambda>dat r e p c m b. [], x_to_eps = \<lambda>x. x,
       inv_x_to_eps = \<lambda>x. x, Angle_TwoAngles = \<lambda>a b. 0,
       huber_predict = \<lambda>deg eps xs ys. ys,
       random_normal = \<lambda>loc scale g. (if scale = 3/100 then d else 0, g),
       random_shuffle = \<lambda>I g. (I, g)\<rparr>"
    and loss: "loss = (\<lambda>R E PA i r. if E ! 0 = 1/2 + d then 0 else (1 :: real))"
    and d: "d \<noteq> 0"
  shows "ellip_of (fitted sh loss 1 (1/2) 0 [1, 2, 3, 4, 5, 6] ())
           = [1/2 + d, 1/2, 1/2, 1/2, 1/2, 1/2]"
    and "pa_of (fitted sh loss 1 (1/2) 0 [1, 2, 3, 4, 5, 6] ()) = [0, 0, 0, 0, 0, 0]"
proof -
  let ?R = "[1, 2, 3, 4, 5, 6 :: real]"
  let ?e = "[1/2, 1/2, 1/2, 1/2, 1/2, 1/2 :: real]"
  let ?p = "[0, 0, 0, 0, 0, 0 :: real]"
  let ?t = "[1/2 + d, 1/2, 1/2, 1/2, 1/2, 1/2 :: real]"
  let ?st0 = "\<lparr>ellip_of = ?e, pa_of = ?p,
                count_nochange = 0, index_order = [0, 1, 2, 3, 4, 5], rng = ()\<rparr>"
  let ?st1 = "update_index sh (loss ?R) 1 1 0 ?st0"
  let ?ps = "fst (candidates sh (loss ?R) 1 1 0 (ellip_of ?st0) (pa_of ?st0) (rng ?st0))"
  have pt: "perturb sh (Suc 0) 0 ?e ?p g = ((?t, ?p), ())" for g
    by (simp add: perturb_def Let_def sh py_fmod_def)
  have np: "nth_perturbation sh (loss ?R) 1 (Suc 0) 0 ?e ?p () n = (?t, ?p, 0)" for n
    by (simp add: nth_perturbation_def pt loss)
  have npf: "nth_perturbation sh (loss ?R) 1 (Suc 0) 0 ?e ?p () = (\<lambda>n. (?t, ?p, 0))"
    by (rule ext) (rule np)
  have l0: "loss ?R ?e ?p 0 r = 1" for r by (simp add: loss d)
  have ps: "?ps = (?e, ?p, 1) # replicate 5 (?t, ?p, 0)"
    by (simp add: candidates_eq npf l0 map_replicate_const)
  have best: "np_argmin (map (\<lambda>p. snd (snd p)) ?ps) = 1"
    unfolding ps by (simp add: np_argmin_def numeral_eq_Suc)
  have pos: "0 < np_argmin (map (\<lambda>p. snd (snd p)) ?ps)" unfolding best by simp
  have e1: "ellip_of ?st1 = ?t"
    unfolding update_index_win[OF pos] best unfolding ps by simp
  have p1: "pa_of ?st1 = ?p"
    unfolding update_index_win[OF pos] best unfolding ps by simp
  have m1: "\<forall>i E' PA' r. loss ?R (ellip_of ?st1) (pa_of ?st1) i r \<le> loss ?R E' PA' i r"
    unfolding e1 by (simp add: loss)
  let ?st2 = "fold (update_index sh (loss ?R) 1 1) [1, 2, 3, 4, 5] ?st1"
  have e2: "ellip_of ?st2 = ellip_of ?st1" "pa_of ?st2 = pa_of ?st1"
    using fold_update_index_at_minimum[OF m1, of sh 1 1 "[1, 2, 3, 4, 5]"] by simp_all
  have m2: "\<forall>i E' PA' r. loss ?R (ellip_of ?st2) (pa_of ?st2) i r \<le> loss ?R E' PA' i r"
    unfolding e2 by (rule m1)
  have c: "(0 :: nat) < 300 \<and> count_nochange ?st0 < 3 * 6" by simp
  have sf: "random_shuffle sh I g = (I, g)" for I g by (simp add: sh)
  have g0: "fit_loop sh (loss ?R) 1 6 0 ?st0 = fit_loop sh (loss ?R) 1 6 (0 + 1) ?st2"
    unfolding fit_loop_step[OF c] sf fst_conv snd_conv by simp
  have len: "length ?R = 6" by simp
  have f: "fitted sh loss 1 (1/2) 0 ?R () = snd (fit_loop sh (loss ?R) 1 6 (0 + 1) ?st2)"
    unfolding fitted_def len replicate_6 upt_6 g0 by (rule refl)
  show "ellip_of (fitted sh loss 1 (1/2) 0 ?R ()) = ?t"
    unfolding f using fit_loop_at_minimum[OF m2, of sh 1 6 "0 + 1"] e2 e1 by simp
  show "pa_of (fitted sh loss 1 (1/2) 0 ?R ()) = ?p"
    unfolding f using fit_loop_at_minimum[OF m2, of sh 1 6 "0 + 1"] e2 p1 by simp
qed

lemma example_profile:
  fixes sh :: "(real, unit) shared"
  assumes sh: "sh = \<lparr>iso_extract = \<lambda>dat r e p c m b. [], x_to_eps = \<lambda>x. x,
       inv_x_to_eps = \<lambda>x. x, Angle_TwoAngles = \<lambda>a b. 0,
       huber_predict = \<lambda>deg eps xs ys. ys,
       random_normal = \<lambda>loc scale g. (if scale = 3/100 then 3/100 else 0, g),
       random_shuffle = \<lambda>I g. (I, g)\<rparr>"
    and loss: "loss = (\<lambda>R E PA i r. if E ! 0 = 53/100 then 0 else (1 :: real))"
  shows "flattened sh loss 1 (1/2) 0 [1, 2, 3, 4, 5, 6] ()
           = ([53/100, 1/2, 1/2, 1/2, 1/2, 1/2], [0, 0, 0, 0, 0, 0])"
    and "ellip_smooth sh [1, 2, 3, 4, 5, 6] [53/100, 1/2, 1/2, 1/2, 1/2, 1/2] 5
           = [53/100, 1/2, 1/2, 1/2, 1/2, 1/2]"
    and "ellip_smooth sh [1, 2, 3, 4, 5, 6] [1/2, 1/2, 1/2, 1/2, 1/2, 1/2] 5
           = [1/2, 1/2, 1/2, 1/2, 1/2, 1/2]"
    and "clamp_first3 [53/100, 1/2, 1/2, 1/2, 1/2, 1/2] = [1/2, 1/2, 1/2, 1/2, 1/2, 1/2]"
    and "fit_profile sh loss 1 (1/2) 0 [1, 2, 3, 4, 5, 6] ()
           = Inr \<lparr>fit_ellip = [1/2, 1/2, 1/2, 1/2, 1/2, 1/2], fit_pa = [0, 0, 0, 0, 0, 0],
                  fit_R = [1, 2, 3, 4, 5, 6],
                  fit_ellip_err = [3/200, 3/200, 3/200, 0, 0, 0],
                  fit_pa_err = [0, 0, 0, 0, 0, 0], auxfile_fitlimit = 6\<rparr>"
proof -
  let ?R = "[1, 2, 3, 4, 5, 6 :: real]"
  let ?e = "[1/2, 1/2, 1/2, 1/2, 1/2, 1/2 :: real]"
  let ?p = "[0, 0, 0, 0, 0, 0 :: real]"
  let ?t = "[53/100, 1/2, 1/2, 1/2, 1/2, 1/2 :: real]"
  have sh': "sh = \<lparr>iso_extract = \<lambda>dat r e p c m b. [], x_to_eps = \<lambda>x. x,
       inv_x_to_eps = \<lambda>x. x, Angle_TwoAngles = \<lambda>a b. 0,
       huber_predict = \<lambda>deg eps xs ys. ys,
       random_normal = \<lambda>loc scale g. (if scale = 3/100 then 3/100 else 0, g),
       random_shuffle = \<lambda>I g. (I, g)\<rparr>" by (rule sh)
  have loss': "loss = (\<lambda>R E PA i r. if E ! 0 = 1/2 + 3/100 then 0 else (1 :: real))"
    by (simp add: loss)
  have d: "(3/100 :: real) \<noteq> 0" by simp
  have t: "[1/2 + 3/100, 1/2, 1/2, 1/2, 1/2, 1/2] = [53/100, 1/2, 1/2, 1/2, 1/2, 1/2 :: real]"
    by simp
  note ft = example_fitted[OF sh' loss' d, unfolded t]
  have tr: "inv_x_to_eps sh = (\<lambda>x. x)" by (simp add: sh)
  show fl: "flattened sh loss 1 (1/2) 0 ?R () = (?t, ?p)"
    unfolding flattened_def ft tr
    by (simp add: collapse_step_def Let_def upt_rec numeral_eq_Suc)
  show sm: "ellip_smooth sh ?R ?t 5 = ?t"
    by (simp add: ellip_smooth_def sh)
  show "ellip_smooth sh ?R ?e 5 = ?e"
    by (simp add: ellip_smooth_def sh)
  show cl: "clamp_first3 ?t = ?e"
    by (simp add: clamp_first3_def fill_prefix_def numeral_eq_Suc)
  have ps: "pa_smooth sh ?R ?p 5 = ?p"
    by (simp add: pa_smooth_def sh np_clip_def pa_recombine_def py_fmod_def)
  have sq: "sqrt (9 / 40000) = 3 / 200"
    by (rule real_sqrt_unique) (simp_all add: power2_eq_square)
  have ee: "compute_err ?e ?t = Inr [3/200, 3/200, 3/200, 0, 0, 0]"
    by (simp add: compute_err_def Let_def fill_prefix_def window_rms_def err_loop_body_def
        slice_def last_n_def upt_rec numeral_eq_Suc power2_eq_square sq)
  have pe: "compute_err ?p ?p = Inr ?p"
    by (simp add: compute_err_def Let_def fill_prefix_def window_rms_def err_loop_body_def
        slice_def last_n_def upt_rec numeral_eq_Suc)
  have six: "6 \<le> length ?R" by simp
  from fit_profile_Inr[OF six, of sh loss 1 "1/2" 0 "()"]
  show "fit_profile sh loss 1 (1/2) 0 ?R ()
           = Inr \<lparr>fit_ellip = ?e, fit_pa = ?p, fit_R = ?R,
                  fit_ellip_err = [3/200, 3/200, 3/200, 0, 0, 0],
                  fit_pa_err = ?p, auxfile_fitlimit = 6\<rparr>"
    unfolding fl fst_conv snd_conv cl sm ps ee pe by simp
qed

subsection \<open>Flattening and clamping in the fit\<close>

lemma clamp_first3_nth:
  assumes "3 \<le> length xs"
  shows "j < 3 \<Longrightarrow> clamp_first3 xs ! j = Min {xs ! 0, xs ! 1, xs ! 2}"
    and "3 \<le> j \<Longrightarrow> j < length xs \<Longrightarrow> clamp_first3 xs ! j = xs ! j"
proof -
  obtain a b c ys where xs: "xs = a # b # c # ys"
    using assms by (cases xs; cases "tl xs"; cases "tl (tl xs)") auto
  have s: "set (take 3 xs) = {xs ! 0, xs ! 1, xs ! 2}"
    by (auto simp: xs numeral_eq_Suc)
  show "j < 3 \<Longrightarrow> clamp_first3 xs ! j = Min {xs ! 0, xs ! 1, xs ! 2}"
    using assms unfolding clamp_first3_def s by (simp add: nth_fill_prefix)
  show "3 \<le> j \<Longrightarrow> j < length xs \<Longrightarrow> clamp_first3 xs ! j = xs ! j"
    unfolding clamp_first3_def by (simp add: nth_fill_prefix)
qed

text \<open>
  Claim C5, as the source has it. The loop \<^verbatim>\<open>for i in range(5)\<close> reads at the step \<open>i\<close> the
  entries \<open>i\<close> and \<open>i + 1\<close>, which no earlier step has written, so the test is on the
  ellipticities \<open>e\<close> that the fitting loop returned: when the transformed ellipticity drops by
  more than 0.5 from \<open>i\<close> to \<open>i + 1\<close>, the arrays after the step are \<open>e\<close> and \<open>p\<close> with the
  entries \<open>0, \<dots>, i\<close> set to \<open>e[i+1]\<close> and to \<open>p[i+1]\<close>, and otherwise the step changes nothing.
  After the five steps the arrays are those of the last index with a drop, or \<open>e\<close> and \<open>p\<close>
  when there is none. The ellipticities that are returned are the flattened ones with the
  first three entries set to their minimum. The smoothed trends are computed from the
  flattened arrays as they were before that clamp, and the errors compare the clamped
  ellipticities with the trend of the ellipticities that were not clamped.
\<close>

theorem collapsed_center_and_clamp:
  fixes sh :: "('s, 'g) shared"
    and loss :: "real list \<Rightarrow> real list \<Rightarrow> real list \<Rightarrow> nat \<Rightarrow> real \<Rightarrow> 'l::linorder"
    and rs e0 p0 :: real and R :: "real list" and g :: 'g
  assumes "6 \<le> length R"
  defines "e \<equiv> ellip_of (fitted sh loss rs e0 p0 R g)"
  defines "p \<equiv> pa_of (fitted sh loss rs e0 p0 R g)"
  defines "tr \<equiv> inv_x_to_eps sh"
  defines "f \<equiv> flattened sh loss rs e0 p0 R g"
  shows "length e = length R \<and> length p = length R
    \<and> f = fold (collapse_step tr) [0..<5] (e, p)
    \<and> (\<forall>i<5. fold (collapse_step tr) [0..<Suc i] (e, p)
          = (if tr (e ! i) - tr (e ! (i + 1)) > 0.5
             then (fill_prefix (i + 1) (e ! (i + 1)) e, fill_prefix (i + 1) (p ! (i + 1)) p)
             else fold (collapse_step tr) [0..<i] (e, p)))
    \<and> ((\<forall>i<5. \<not> tr (e ! i) - tr (e ! (i + 1)) > 0.5) \<longrightarrow> f = (e, p))
    \<and> (\<forall>m<5. tr (e ! m) - tr (e ! (m + 1)) > 0.5
            \<and> (\<forall>i. m < i \<and> i < 5 \<longrightarrow> \<not> tr (e ! i) - tr (e ! (i + 1)) > 0.5) \<longrightarrow>
          (\<forall>j\<le>m. fst f ! j = e ! (m + 1) \<and> snd f ! j = p ! (m + 1))
          \<and> (\<forall>j. m < j \<and> j < length R \<longrightarrow> fst f ! j = e ! j \<and> snd f ! j = p ! j))
    \<and> length (fst f) = length R \<and> length (snd f) = length R
    \<and> (\<forall>j<3. clamp_first3 (fst f) ! j = Min {fst f ! 0, fst f ! 1, fst f ! 2})
    \<and> (\<forall>j. 3 \<le> j \<and> j < length R \<longrightarrow> clamp_first3 (fst f) ! j = fst f ! j)
    \<and> (\<exists>ee pe.
          compute_err (clamp_first3 (fst f)) (ellip_smooth sh R (fst f) 5) = Inr ee
        \<and> compute_err (snd f) (pa_smooth sh R (snd f) 5) = Inr pe
        \<and> fit_profile sh loss rs e0 p0 R g
            = Inr \<lparr>fit_ellip = clamp_first3 (fst f), fit_pa = snd f, fit_R = R,
                   fit_ellip_err = ee, fit_pa_err = pe, auxfile_fitlimit = last R\<rparr>)"
proof -
  have le: "length e = length R" and lp: "length p = length R"
    by (simp_all add: e_def p_def length_fitted)
  have pe: "length p = length e" using le lp by simp
  have fd: "f = fold (collapse_step tr) [0..<5] (e, p)"
    by (simp add: f_def flattened_def e_def p_def tr_def)
  have st: "\<forall>i<5. fold (collapse_step tr) [0..<Suc i] (e, p)
          = (if tr (e ! i) - tr (e ! (i + 1)) > 0.5
             then (fill_prefix (i + 1) (e ! (i + 1)) e, fill_prefix (i + 1) (p ! (i + 1)) p)
             else fold (collapse_step tr) [0..<i] (e, p))"
  proof (intro allI impI)
    fix i :: nat
    assume "i < 5"
    then have "i \<le> length e" using le assms(1) by simp
    then show "fold (collapse_step tr) [0..<Suc i] (e, p)
          = (if tr (e ! i) - tr (e ! (i + 1)) > 0.5
             then (fill_prefix (i + 1) (e ! (i + 1)) e, fill_prefix (i + 1) (p ! (i + 1)) p)
             else fold (collapse_step tr) [0..<i] (e, p))"
      by (rule collapse_fold_step[OF pe])
  qed
  have n5: "5 \<le> length e" using le assms(1) by simp
  have no: "(\<forall>i<5. \<not> tr (e ! i) - tr (e ! (i + 1)) > 0.5) \<longrightarrow> f = (e, p)"
    unfolding fd by (rule impI) (rule collapse_fold_none[OF pe n5])
  have la: "(\<forall>j\<le>m. fst f ! j = e ! (m + 1) \<and> snd f ! j = p ! (m + 1))
          \<and> (\<forall>j. m < j \<and> j < length R \<longrightarrow> fst f ! j = e ! j \<and> snd f ! j = p ! j)"
    if m: "m < 5" and d: "tr (e ! m) - tr (e ! (m + 1)) > 0.5"
      and l: "\<forall>i. m < i \<and> i < 5 \<longrightarrow> \<not> tr (e ! i) - tr (e ! (i + 1)) > 0.5" for m
  proof -
    have ff: "f = (fill_prefix (m + 1) (e ! (m + 1)) e, fill_prefix (m + 1) (p ! (m + 1)) p)"
      unfolding fd by (rule collapse_fold_last[OF pe n5 m d l])
    have ml: "m < length R" using m assms(1) by simp
    show ?thesis
      unfolding ff using ml le lp by (simp add: nth_fill_prefix)
  qed
  have la': "\<forall>m<5. tr (e ! m) - tr (e ! (m + 1)) > 0.5
            \<and> (\<forall>i. m < i \<and> i < 5 \<longrightarrow> \<not> tr (e ! i) - tr (e ! (i + 1)) > 0.5) \<longrightarrow>
          (\<forall>j\<le>m. fst f ! j = e ! (m + 1) \<and> snd f ! j = p ! (m + 1))
          \<and> (\<forall>j. m < j \<and> j < length R \<longrightarrow> fst f ! j = e ! j \<and> snd f ! j = p ! j)"
    using la by blast
  have lf: "length (fst f) = length R" "length (snd f) = length R"
    by (simp_all add: f_def length_flattened)
  have l3: "3 \<le> length (fst f)" using lf assms(1) by simp
  have c1: "\<forall>j<3. clamp_first3 (fst f) ! j = Min {fst f ! 0, fst f ! 1, fst f ! 2}"
    using clamp_first3_nth(1)[OF l3] by blast
  have c2: "\<forall>j. 3 \<le> j \<and> j < length R \<longrightarrow> clamp_first3 (fst f) ! j = fst f ! j"
    using clamp_first3_nth(2)[OF l3] lf by simp
  have fp: "\<exists>ee pe.
          compute_err (clamp_first3 (fst f)) (ellip_smooth sh R (fst f) 5) = Inr ee
        \<and> compute_err (snd f) (pa_smooth sh R (snd f) 5) = Inr pe
        \<and> fit_profile sh loss rs e0 p0 R g
            = Inr \<lparr>fit_ellip = clamp_first3 (fst f), fit_pa = snd f, fit_R = R,
                   fit_ellip_err = ee, fit_pa_err = pe, auxfile_fitlimit = last R\<rparr>"
    unfolding f_def by (rule fit_profile_Inr[OF assms(1)])
  show ?thesis
    apply (rule conjI[OF le])
    apply (rule conjI[OF lp])
    apply (rule conjI[OF fd])
    apply (rule conjI[OF st])
    apply (rule conjI[OF no])
    apply (rule conjI[OF la'])
    apply (rule conjI[OF lf(1)])
    apply (rule conjI[OF lf(2)])
    apply (rule conjI[OF c1])
    apply (rule conjI[OF c2])
    apply (rule fp)
    done
qed

text \<open>
  The claim C5 as the specification words it has the clamp before the smoothed trend is
  computed, so that the errors returned would be those of the returned ellipticities against
  their own trend. In the fit above with the draw 3/100 the fitting loop returns the
  ellipticities \<open>[53/100, 1/2, 1/2, 1/2, 1/2, 1/2]\<close> and no entry drops; the ellipticities
  returned are clamped to \<open>1/2\<close> throughout, the trend with these regressions is the array
  it is computed from, and the errors returned are \<open>[3/200, 3/200, 3/200, 0, 0, 0]\<close>, those
  against the trend of the array before the clamp, where the trend of the clamped array
  gives zero errors.
\<close>

theorem clamp_after_smoothing_copy:
  "fit_profile
      \<lparr>iso_extract = \<lambda>dat r e p c m b. ([] :: real list), x_to_eps = \<lambda>x. x,
       inv_x_to_eps = \<lambda>x. x, Angle_TwoAngles = \<lambda>a b. 0,
       huber_predict = \<lambda>deg eps xs ys. ys,
       random_normal = \<lambda>loc scale (g :: unit). (if scale = 3/100 then 3/100 else 0, g),
       random_shuffle = \<lambda>I g. (I, g)\<rparr>
      (\<lambda>R E PA i r. if E ! 0 = 53/100 then 0 else (1 :: real)) 1 (1/2) 0
      [1, 2, 3, 4, 5, 6] ()
    = Inr \<lparr>fit_ellip = [1/2, 1/2, 1/2, 1/2, 1/2, 1/2], fit_pa = [0, 0, 0, 0, 0, 0],
           fit_R = [1, 2, 3, 4, 5, 6], fit_ellip_err = [3/200, 3/200, 3/200, 0, 0, 0],
           fit_pa_err = [0, 0, 0, 0, 0, 0], auxfile_fitlimit = 6\<rparr>
   \<and> compute_err [1/2, 1/2, 1/2, 1/2, 1/2, 1/2]
        (ellip_smooth
           \<lparr>iso_extract = \<lambda>dat r e p c m b. ([] :: real list), x_to_eps = \<lambda>x. x,
            inv_x_to_eps = \<lambda>x. x, Angle_TwoAngles = \<lambda>a b. 0,
            huber_predict = \<lambda>deg eps xs ys. ys,
            random_normal = \<lambda>loc scale (g :: unit). (if scale = 3/100 then 3/100 else 0, g),
            random_shuffle = \<lambda>I g. (I, g)\<rparr>
           [1, 2, 3, 4, 5, 6] [1/2, 1/2, 1/2, 1/2, 1/2, 1/2] 5)
    = Inr [0, 0, 0, 0, 0, 0]
   \<and> \<not> (\<forall>(sh :: (real, unit) shared)
           (loss :: real list \<Rightarrow> real list \<Rightarrow> real list \<Rightarrow> nat \<Rightarrow> real \<Rightarrow> real) rs e0 p0 R g r.
          fit_profile sh loss rs e0 p0 R g = Inr r \<longrightarrow>
          compute_err (fit_ellip r) (ellip_smooth sh R (fit_ellip r) 5)
            = Inr (fit_ellip_err r))"
proof -
  let ?sh = "\<lparr>iso_extract = \<lambda>dat r e p c m b. ([] :: real list), x_to_eps = \<lambda>x. x,
       inv_x_to_eps = \<lambda>x. x, Angle_TwoAngles = \<lambda>a b. 0,
       huber_predict = \<lambda>deg eps xs ys. ys,
       random_normal = \<lambda>loc scale (g :: unit). (if scale = 3/100 then 3/100 else 0, g),
       random_shuffle = \<lambda>I g. (I, g)\<rparr>"
  let ?loss = "\<lambda>(R :: real list) (E :: real list) (PA :: real list) (i :: nat) (r :: real).
                 if E ! 0 = 53/100 then 0 else (1 :: real)"
  let ?R = "[1, 2, 3, 4, 5, 6 :: real]"
  let ?e = "[1/2, 1/2, 1/2, 1/2, 1/2, 1/2 :: real]"
  let ?r = "\<lparr>fit_ellip = ?e, fit_pa = [0, 0, 0, 0, 0, 0],
           fit_R = ?R, fit_ellip_err = [3/200, 3/200, 3/200, 0, 0, 0],
           fit_pa_err = [0, 0, 0, 0, 0, 0], auxfile_fitlimit = 6\<rparr>"
  note ex = example_profile[OF refl refl]
  have a: "fit_profile ?sh ?loss 1 (1/2) 0 ?R () = Inr ?r" by (rule ex(5))
  have b: "compute_err ?e (ellip_smooth ?sh ?R ?e 5) = Inr [0, 0, 0, 0, 0, 0]"
    unfolding ex(3)
    by (simp add: compute_err_def Let_def fill_prefix_def window_rms_def err_loop_body_def
        slice_def last_n_def upt_rec numeral_eq_Suc)
  have c: "\<not> (\<forall>(sh :: (real, unit) shared)
           (loss :: real list \<Rightarrow> real list \<Rightarrow> real list \<Rightarrow> nat \<Rightarrow> real \<Rightarrow> real) rs e0 p0 R g r.
          fit_profile sh loss rs e0 p0 R g = Inr r \<longrightarrow>
          compute_err (fit_ellip r) (ellip_smooth sh R (fit_ellip r) 5)
            = Inr (fit_ellip_err r))"
  proof
    assume h: "\<forall>(sh :: (real, unit) shared)
           (loss :: real list \<Rightarrow> real list \<Rightarrow> real list \<Rightarrow> nat \<Rightarrow> real \<Rightarrow> real) rs e0 p0 R g r.
          fit_profile sh loss rs e0 p0 R g = Inr r \<longrightarrow>
          compute_err (fit_ellip r) (ellip_smooth sh R (fit_ellip r) 5)
            = Inr (fit_ellip_err r)"
    from h[rule_format, OF a]
    have "compute_err ?e (ellip_smooth ?sh ?R ?e 5) = Inr [3/200, 3/200, 3/200, 0, 0, 0]"
      by simp
    then show False unfolding b by simp
  qed
  show ?thesis by (rule conjI[OF a conjI[OF b c]])
qed

text \<open>
  The theorem in the fit above with the draw 1: the fitting loop returns the ellipticities
  \<open>[3/2, 1/2, 1/2, 1/2, 1/2, 1/2]\<close>, the only drop is from the index 0 to the index 1, and
  the entry 0 of the flattened ellipticities is the entry 1 of the fitted ones.
\<close>

theorem collapsed_center_and_clamp_witness:
  "fst (flattened
      \<lparr>iso_extract = \<lambda>dat r e p c m b. ([] :: real list), x_to_eps = \<lambda>x. x,
       inv_x_to_eps = \<lambda>x. x, Angle_TwoAngles = \<lambda>a b. 0,
       huber_predict = \<lambda>deg eps xs ys. ys,
       random_normal = \<lambda>loc scale (g :: unit). (if scale = 3/100 then 1 else 0, g),
       random_shuffle = \<lambda>I g. (I, g)\<rparr>
      (\<lambda>R E PA i r. if E ! 0 = 1/2 + 1 then 0 else (1 :: real)) 1 (1/2) 0
      [1, 2, 3, 4, 5, 6] ()) ! 0 = 1/2
   \<and> ellip_of (fitted
      \<lparr>iso_extract = \<lambda>dat r e p c m b. ([] :: real list), x_to_eps = \<lambda>x. x,
       inv_x_to_eps = \<lambda>x. x, Angle_TwoAngles = \<lambda>a b. 0,
       huber_predict = \<lambda>deg eps xs ys. ys,
       random_normal = \<lambda>loc scale (g :: unit). (if scale = 3/100 then 1 else 0, g),
       random_shuffle = \<lambda>I g. (I, g)\<rparr>
      (\<lambda>R E PA i r. if E ! 0 = 1/2 + 1 then 0 else (1 :: real)) 1 (1/2) 0
      [1, 2, 3, 4, 5, 6] ()) ! 0 = 3/2"
proof -
  let ?sh = "\<lparr>iso_extract = \<lambda>dat r e p c m b. ([] :: real list), x_to_eps = \<lambda>x. x,
       inv_x_to_eps = \<lambda>x. x, Angle_TwoAngles = \<lambda>a b. 0,
       huber_predict = \<lambda>deg eps xs ys. ys,
       random_normal = \<lambda>loc scale (g :: unit). (if scale = 3/100 then 1 else 0, g),
       random_shuffle = \<lambda>I g. (I, g)\<rparr>"
  let ?loss = "\<lambda>(R :: real list) (E :: real list) (PA :: real list) (i :: nat) (r :: real).
                 if E ! 0 = 1/2 + 1 then 0 else (1 :: real)"
  let ?R = "[1, 2, 3, 4, 5, 6 :: real]"
  let ?e = "ellip_of (fitted ?sh ?loss 1 (1/2) 0 ?R ())"
  have d: "(1 :: real) \<noteq> 0" by simp
  have e: "?e = [3/2, 1/2, 1/2, 1/2, 1/2, 1/2]"
    using example_fitted(1)[OF refl refl d] by simp
  have six: "6 \<le> length ?R" by simp
  note t = collapsed_center_and_clamp[OF six, where sh = ?sh and loss = ?loss and rs = 1
      and ?e0.0 = "1/2" and ?p0.0 = 0 and g = "()"]
  have m: "(0 :: nat) < 5" by simp
  have dr: "inv_x_to_eps ?sh (?e ! 0) - inv_x_to_eps ?sh (?e ! (0 + 1)) > 0.5"
    unfolding e by simp
  have nd: "\<forall>i. 0 < i \<and> i < 5 \<longrightarrow>
              \<not> inv_x_to_eps ?sh (?e ! i) - inv_x_to_eps ?sh (?e ! (i + 1)) > 0.5"
  proof (intro allI impI)
    fix i :: nat
    assume "0 < i \<and> i < 5"
    then have "i = 1 \<or> i = 2 \<or> i = 3 \<or> i = 4" by arith
    then show "\<not> inv_x_to_eps ?sh (?e ! i) - inv_x_to_eps ?sh (?e ! (i + 1)) > 0.5"
      unfolding e by (elim disjE) simp_all
  qed
  note u = t[THEN conjunct2, THEN conjunct2, THEN conjunct2, THEN conjunct2, THEN conjunct2,
      THEN conjunct1, rule_format, OF m conjI[OF dr nd], THEN conjunct1, rule_format,
      of 0, THEN conjunct1]
  have "fst (flattened ?sh ?loss 1 (1/2) 0 ?R ()) ! 0 = ?e ! (0 + 1)"
    by (rule u) simp
  then have a: "fst (flattened ?sh ?loss 1 (1/2) 0 ?R ()) ! 0 = 1/2"
    unfolding e by simp
  have b: "?e ! 0 = 3/2" unfolding e by simp
  show ?thesis by (rule conjI[OF a b])
qed

end
